theory Spec2Isabelle
  imports Complex_Main
begin

section \<open>Strings and the string methods the program calls\<close>

text \<open>
  A Python \<open>str\<close> is modelled as a \<open>string\<close>: a list of characters, one per code
  point, for the code points below 256. Integers are \<open>int\<close>. A float is an IEEE
  binary64 number, modelled by its rational value. An exception is a value of
  \<open>py_error\<close>: a pure function that can raise returns \<open>py_error + 'a\<close> with \<open>Inl\<close> for
  the exception, and one that mutates the globals returns the exception together with
  the state at the raise, since what was mutated stays mutated.
\<close>

datatype py_error = OSError | ValueError | RuntimeError | StopIteration | ZeroDivisionError

text \<open>\<open>text.find(c, start)\<close> for a one-character needle: the index of the first
  occurrence at or after \<open>start\<close>, or \<open>-1\<close>.\<close>

fun find_idx :: "char \<Rightarrow> string \<Rightarrow> nat \<Rightarrow> int" where
  "find_idx c [] i = -1"
| "find_idx c (x # xs) i = (if x = c then int i else find_idx c xs (Suc i))"

definition str_find :: "string \<Rightarrow> char \<Rightarrow> nat \<Rightarrow> int" where
  "str_find text c start = find_idx c (drop start text) start"

text \<open>\<open>text[i:j]\<close> and \<open>text[i:]\<close> for indices \<open>0 \<le> i\<close>, \<open>0 \<le> j\<close>.\<close>

definition slice :: "string \<Rightarrow> nat \<Rightarrow> nat \<Rightarrow> string" where
  "slice text i j = take (j - i) (drop i text)"

text \<open>\<open>text.replace(c, "")\<close> for a one-character \<open>c\<close>.\<close>

definition str_remove :: "char \<Rightarrow> string \<Rightarrow> string" where
  "str_remove c text = filter (\<lambda>x. x \<noteq> c) text"

section \<open>Text layout helpers: the caret span\<close>

definition split_caret_span :: "string \<Rightarrow> string \<times> string option \<times> string" where
  "split_caret_span text =
     (let a = str_find text CHR ''^'' 0 in
      if a = -1 then (text, None, '''')
      else
        let b = str_find text CHR ''^'' (nat a + 1) in
        if b = -1 then (str_remove CHR ''^'' text, None, '''')
        else
          (str_remove CHR ''^'' (slice text 0 (nat a)),
           Some (str_remove CHR ''^'' (slice text (nat a + 1) (nat b))),
           str_remove CHR ''^'' (drop (nat b + 1) text)))"

text \<open>
  The splitter as the specification words it, by the number of sentinels: none, the text
  as it is; one, the text without it; two or more, the text before the first sentinel,
  the span between the first and the second, the text after the second, each with every
  further sentinel removed.
\<close>

definition split_spec :: "string \<Rightarrow> string \<times> string option \<times> string" where
  "split_spec text =
     (let n = count_list text CHR ''^'';
          notc = (\<lambda>x. x \<noteq> CHR ''^'')
      in
      if n = 0 then (text, None, '''')
      else if n = 1 then (filter notc text, None, '''')
      else
        let pre = takeWhile notc text;
            rest = tl (dropWhile notc text);
            mid = takeWhile notc rest;
            post = tl (dropWhile notc rest)
        in (filter notc pre, Some (filter notc mid), filter notc post))"

section \<open>More string methods, \<open>int()\<close> and the \<open>02d\<close> format\<close>

text \<open>The characters \<open>str.strip()\<close> and \<open>str.split()\<close> take for white space, among
  the code points below 256.\<close>

definition is_space :: "char \<Rightarrow> bool" where
  "is_space c = (c \<in> set [CHR 0x09, CHR 0x0A, CHR 0x0B, CHR 0x0C, CHR 0x0D,
                             CHR 0x1C, CHR 0x1D, CHR 0x1E, CHR 0x1F, CHR 0x20, CHR 0x85, CHR 0xA0])"

text \<open>\<open>s.rstrip(chars)\<close> and \<open>s.strip()\<close>.\<close>

definition str_rstrip :: "string \<Rightarrow> string \<Rightarrow> string" where
  "str_rstrip chars s = rev (dropWhile (\<lambda>c. c \<in> set chars) (rev s))"

definition str_strip :: "string \<Rightarrow> string" where
  "str_strip s = dropWhile is_space (rev (dropWhile is_space (rev s)))"

text \<open>\<open>s.split(sep)\<close> and \<open>s.split(sep, maxsplit)\<close> for a one-character separator.\<close>

fun str_split :: "char \<Rightarrow> string \<Rightarrow> string list" where
  "str_split sep [] = [[]]"
| "str_split sep (x # xs) =
     (if x = sep then [] # str_split sep xs
      else (case str_split sep xs of p # ps \<Rightarrow> (x # p) # ps | [] \<Rightarrow> [[x]]))"

fun str_split_max :: "char \<Rightarrow> nat \<Rightarrow> string \<Rightarrow> string list" where
  "str_split_max sep 0 s = [s]"
| "str_split_max sep (Suc n) [] = [[]]"
| "str_split_max sep (Suc n) (x # xs) =
     (if x = sep then [] # str_split_max sep n xs
      else (case str_split_max sep (Suc n) xs of p # ps \<Rightarrow> (x # p) # ps | [] \<Rightarrow> [[x]]))"

text \<open>\<open>s.split()\<close>: the maximal runs of characters that are not white space.\<close>

fun split_ws_acc :: "string \<Rightarrow> string \<Rightarrow> string list" where
  "split_ws_acc cur [] = (if cur = [] then [] else [rev cur])"
| "split_ws_acc cur (x # xs) =
     (if is_space x then (if cur = [] then split_ws_acc [] xs else rev cur # split_ws_acc [] xs)
      else split_ws_acc (x # cur) xs)"

definition str_split_ws :: "string \<Rightarrow> string list" where
  "str_split_ws s = split_ws_acc [] s"

text \<open>
  \<open>int(s)\<close> in base 10: white space around, an optional sign, then decimal digits, where
  single underscores may stand between digits. Anything else raises \<open>ValueError\<close>.
  \<open>int()\<close> takes fewer characters for white space than \<open>str.strip()\<close>: U+001C to
  U+001F are not among them.
\<close>

definition is_int_space :: "char \<Rightarrow> bool" where
  "is_int_space c = (c \<in> set [CHR 0x09, CHR 0x0A, CHR 0x0B, CHR 0x0C, CHR 0x0D,
                                 CHR 0x20, CHR 0x85, CHR 0xA0])"

definition is_digit :: "char \<Rightarrow> bool" where
  "is_digit c = (48 \<le> (of_char c :: nat) \<and> (of_char c :: nat) \<le> 57)"

fun int_body_ok :: "bool \<Rightarrow> string \<Rightarrow> bool" where
  "int_body_ok prev_digit [] = prev_digit"
| "int_body_ok prev_digit (c # cs) =
     (if is_digit c then int_body_ok True cs
      else if c = CHR ''_'' then prev_digit \<and> int_body_ok False cs
      else False)"

fun digits_val :: "nat \<Rightarrow> string \<Rightarrow> nat" where
  "digits_val acc [] = acc"
| "digits_val acc (c # cs) = digits_val (10 * acc + (of_char c - 48)) cs"

definition py_int :: "string \<Rightarrow> py_error + int" where
  "py_int s =
     (let t = dropWhile is_int_space (rev (dropWhile is_int_space (rev s)));
          neg = (t \<noteq> [] \<and> hd t = CHR ''-'');
          body = (if t \<noteq> [] \<and> (hd t = CHR ''-'' \<or> hd t = CHR ''+'') then tl t else t)
      in if int_body_ok False body
         then (let v = int (digits_val 0 (filter is_digit body)) in Inr (if neg then - v else v))
         else Inl ValueError)"

text \<open>\<open>f"{i:d}"\<close> and \<open>f"{i:02d}"\<close>: the zeros of the padding stand after the sign.\<close>

fun dec_nat :: "nat \<Rightarrow> string" where
  "dec_nat n = (if n < 10 then [char_of (48 + n)] else dec_nat (n div 10) @ [char_of (48 + n mod 10)])"

declare dec_nat.simps [simp del]

definition zfill :: "nat \<Rightarrow> string \<Rightarrow> string" where
  "zfill w s = replicate (w - length s) CHR ''0'' @ s"

definition fmt_d :: "int \<Rightarrow> string" where
  "fmt_d i = (if i < 0 then CHR ''-'' # dec_nat (nat (- i)) else dec_nat (nat i))"

definition fmt_02d :: "int \<Rightarrow> string" where
  "fmt_02d i = (if i < 0 then CHR ''-'' # zfill 1 (dec_nat (nat (- i))) else zfill 2 (dec_nat (nat i)))"

text \<open>The key \<open>f"{h:02d}:{m:02d}"\<close>.\<close>

definition fmt_hhmm :: "int \<Rightarrow> int \<Rightarrow> string" where
  "fmt_hhmm h m = fmt_02d h @ '':'' @ fmt_02d m"

section \<open>Config\<close>

definition UPDATE_MINUTES :: int where "UPDATE_MINUTES = 5"
definition TIME_24H :: bool where "TIME_24H = True"
definition MARGIN :: int where "MARGIN = 10"
definition MIN_REFRESH_GAP :: rat where "MIN_REFRESH_GAP = 1 / 2"

section \<open>CSV loader\<close>

text \<open>
  A quote is the tuple \<open>(quote, work, author, tag)\<close>. The index is a \<open>dict\<close> from the
  key \<open>HH:MM\<close> to a list of quotes; it is modelled as the list of its items in
  iteration order, a new key going to the end.
\<close>

type_synonym quote = "string \<times> string \<times> string \<times> string"
type_synonym quote_index = "(string \<times> quote list) list"

text \<open>\<open>mapping.setdefault(k, []).append(v)\<close>.\<close>

fun setdefault_append :: "quote_index \<Rightarrow> string \<Rightarrow> quote \<Rightarrow> quote_index" where
  "setdefault_append [] k v = [(k, [v])]"
| "setdefault_append ((k', vs) # m) k v =
     (if k' = k then (k', vs @ [v]) # m else (k', vs) # setdefault_append m k v)"

text \<open>
  The source of the file: \<open>open\<close> raises \<open>OSError\<close>, or the file yields its lines. The
  body of the loop raises no \<open>OSError\<close> of its own, so the \<open>except OSError\<close> clause is
  the branch \<open>Unreadable\<close>.
\<close>

datatype source = Unreadable | Lines "string list"

text \<open>
  The body of the \<open>for raw in f\<close> loop: one line, and the mapping so far.
  \<open>normalize_hhmm\<close> is its part that strips the time field and rewrites a field of
  four characters with a colon in second place.
\<close>

definition normalize_hhmm :: "string \<Rightarrow> py_error + string" where
  "normalize_hhmm field =
     (let hhmm = str_strip field in
      if length hhmm = 4 \<and> hhmm ! 1 = CHR '':'' then
        (case str_split CHR '':'' hhmm of
           [h, m] \<Rightarrow>
             (case py_int h of
                Inl e \<Rightarrow> Inl e
              | Inr hi \<Rightarrow>
                  (case py_int m of
                     Inl e \<Rightarrow> Inl e
                   | Inr mi \<Rightarrow> Inr (fmt_hhmm hi mi)))
         | _ \<Rightarrow> Inl ValueError)
      else Inr hhmm)"

definition load_line :: "quote_index \<Rightarrow> string \<Rightarrow> py_error + quote_index" where
  "load_line mapping raw0 =
     (let raw = str_rstrip [CHR 0x0D, CHR 0x0A] raw0 in
      if raw = [] \<or> hd raw = CHR ''#'' then Inr mapping
      else
        let parts = str_split_max CHR ''|'' 4 raw in
        if length parts < 5 then Inr mapping
        else
          let quote = parts ! 1; work = parts ! 2; author = parts ! 3; tag = parts ! 4
          in (case normalize_hhmm (parts ! 0) of
                Inl e \<Rightarrow> Inl e
              | Inr hhmm \<Rightarrow>
                  if length hhmm = 5 \<and> hhmm ! 2 = CHR '':''
                  then Inr (setdefault_append mapping hhmm (quote, work, author, tag))
                  else Inr mapping))"

fun load_loop :: "quote_index \<Rightarrow> string list \<Rightarrow> py_error + quote_index" where
  "load_loop mapping [] = Inr mapping"
| "load_loop mapping (raw # rest) =
     (case load_line mapping raw of Inl e \<Rightarrow> Inl e | Inr mapping' \<Rightarrow> load_loop mapping' rest)"

definition load_quotes_csv :: "source \<Rightarrow> py_error + quote_index" where
  "load_quotes_csv src = (case src of Unreadable \<Rightarrow> Inr [] | Lines ls \<Rightarrow> load_loop [] ls)"

text \<open>The module's \<open>QUOTES_BY_HHMM\<close>: what the loader returned, or the two fallback
  entries when that is empty.\<close>

definition fallback_quotes :: quote_index where
  "fallback_quotes =
     [(''00:00'', [(''^Midnight^.'', ''Fallback'', ''System'', ''unknown'')]),
      (''12:00'', [(''High ^noon^.'', ''Fallback'', ''System'', ''unknown'')])]"

definition QUOTES_BY_HHMM :: "quote_index \<Rightarrow> quote_index" where
  "QUOTES_BY_HHMM loaded = (if loaded = [] then fallback_quotes else loaded)"

text \<open>
  The TimeKey invariant as the specification words it: a zero-padded \<open>HH:MM\<close> with
  \<open>0 \<le> HH \<le> 23\<close> and \<open>0 \<le> MM \<le> 59\<close>. And the shape the loader's last test asks
  of a key: five characters, the third a colon.
\<close>

definition valid_time_key :: "string \<Rightarrow> bool" where
  "valid_time_key k =
     (length k = 5 \<and> is_digit (k ! 0) \<and> is_digit (k ! 1) \<and> k ! 2 = CHR '':''
      \<and> is_digit (k ! 3) \<and> is_digit (k ! 4)
      \<and> digits_val 0 (take 2 k) \<le> 23 \<and> digits_val 0 (drop 3 k) \<le> 59)"

definition key_shape :: "string \<Rightarrow> bool" where
  "key_shape k = (length k = 5 \<and> k ! 2 = CHR '':'')"

text \<open>
  What a dataset holds under a key, said of the lines and not of the loop: a line gives
  its record to the key \<open>k\<close> when it is neither blank nor a comment, has five fields,
  and its time field after normalization is \<open>k\<close>, five characters with a colon in third
  place; any other line gives nothing. \<open>records_for k ls\<close> are the records the lines
  \<open>ls\<close> give to \<open>k\<close>, in file order.
\<close>

definition line_records :: "string \<Rightarrow> string \<Rightarrow> quote list" where
  "line_records k raw0 =
     (let raw = str_rstrip [CHR 0x0D, CHR 0x0A] raw0;
          parts = str_split_max CHR ''|'' 4 raw
      in if raw \<noteq> [] \<and> hd raw \<noteq> CHR ''#'' \<and> 5 \<le> length parts
            \<and> normalize_hhmm (parts ! 0) = Inr k \<and> length k = 5 \<and> k ! 2 = CHR '':''
         then [(parts ! 1, parts ! 2, parts ! 3, parts ! 4)]
         else [])"

definition records_for :: "string \<Rightarrow> string list \<Rightarrow> quote list" where
  "records_for k ls = concat (map (line_records k) ls)"

text \<open>\<open>mapping.get(k, [])\<close>: the list under a key, empty when the key is absent.\<close>

definition get_list :: "quote_index \<Rightarrow> string \<Rightarrow> quote list" where
  "get_list mapping k = (case map_of mapping k of None \<Rightarrow> [] | Some l \<Rightarrow> l)"

section \<open>Quote selection\<close>

text \<open>\<open>not lst\<close> for the result of \<open>dict.get\<close>: \<open>None\<close> or the empty list.\<close>

definition falsy :: "quote list option \<Rightarrow> bool" where
  "falsy lst = (case lst of None \<Rightarrow> True | Some l \<Rightarrow> l = [])"

definition pick_for_time :: "quote_index \<Rightarrow> int \<Rightarrow> int \<Rightarrow> py_error + quote" where
  "pick_for_time quotes h m =
     (let key = fmt_hhmm h m;
          lst = map_of quotes key;
          lst = (if falsy lst
                 then (let bucket_m = (m div UPDATE_MINUTES) * UPDATE_MINUTES
                       in map_of quotes (fmt_hhmm h bucket_m))
                 else lst);
          last_resort = (case quotes of
                           [] \<Rightarrow> Inl StopIteration
                         | (any_key, l) # _ \<Rightarrow> Inr l);
          found = (case lst of
                     None \<Rightarrow> last_resort
                   | Some l \<Rightarrow> if l = [] then last_resort else Inr l)
      in (case found of
            Inl e \<Rightarrow> Inl e
          | Inr l \<Rightarrow>
              if l = [] then Inl ZeroDivisionError
              else Inr (l ! nat (h mod int (length l)))))"

section \<open>Text layout: greedy word wrap\<close>

text \<open>
  A label of the quote group: its text and its anchored position. The font's metrics
  are a parameter: \<open>measure txt\<close> is the width and the height of the bounding box of
  a label with the text \<open>txt\<close>. The module never defines \<open>quote_font\<close>, so every
  label is in \<open>terminalio.FONT\<close> and one function measures them all.
\<close>

record label =
  lab_text :: string
  lab_x :: int
  lab_y :: int

record display_env =
  measure :: "string \<Rightarrow> int \<times> int"
  display_width :: int
  display_height :: int
  quotes_by_hhmm :: quote_index

text \<open>The variables of \<open>layout_quote_into_group\<close> that its loop and \<open>flush_line\<close>
  share.\<close>

record layout_vars =
  lv_x :: int
  lv_y :: int
  lv_line :: "(string \<times> bool) list"
  lv_line_w :: int
  lv_qgroup :: "label list"

text \<open>The \<open>for txt, bold in line\<close> loop of \<open>flush_line\<close>: the labels it appends, and
  the final \<open>x\<close>.\<close>

fun place_line :: "(string \<Rightarrow> int \<times> int) \<Rightarrow> int \<Rightarrow> int \<Rightarrow> int \<Rightarrow> (string \<times> bool) list \<Rightarrow> int \<times> label list" where
  "place_line meas space_w y x [] = (x, [])"
| "place_line meas space_w y x ((txt, bold) # rest) =
     (let lab = \<lparr>lab_text = txt, lab_x = x, lab_y = y\<rparr>;
          labs = (if bold then [lab, \<lparr>lab_text = txt, lab_x = x + 1, lab_y = y\<rparr>] else [lab]);
          w = fst (meas txt);
          r = place_line meas space_w y (x + w + space_w) rest
      in (fst r, labs @ snd r))"

definition flush_line :: "(string \<Rightarrow> int \<times> int) \<Rightarrow> int option \<Rightarrow> int \<Rightarrow> int \<Rightarrow> layout_vars \<Rightarrow> bool \<times> layout_vars" where
  "flush_line meas y_max space_w line_h v =
     (let v1 = v\<lparr>lv_x := MARGIN\<rparr> in
      if (case y_max of None \<Rightarrow> False | Some ym \<Rightarrow> lv_y v1 + line_h > ym)
      then (False, v1\<lparr>lv_line := []\<rparr>)
      else
        let r = place_line meas space_w (lv_y v1) (lv_x v1) (lv_line v1)
        in (True, v1\<lparr>lv_x := fst r, lv_line := [], lv_qgroup := lv_qgroup v1 @ snd r\<rparr>))"

text \<open>The \<open>for txt, bold in tokens\<close> loop with the final \<open>if line: flush_line()\<close>; the
  \<open>return\<close> inside the loop ends it with the variables as they are.\<close>

fun layout_loop :: "display_env \<Rightarrow> int option \<Rightarrow> int \<Rightarrow> int \<Rightarrow> (string \<times> bool) list \<Rightarrow> layout_vars \<Rightarrow> layout_vars" where
  "layout_loop env y_max space_w line_h [] v =
     (if lv_line v \<noteq> [] then snd (flush_line (measure env) y_max space_w line_h v) else v)"
| "layout_loop env y_max space_w line_h ((txt, bold) # tokens) v =
     (let w = fst (measure env txt);
          next_w = (if lv_line v = [] then w else lv_line_w v + space_w + w)
      in if lv_line v \<noteq> [] \<and> MARGIN + next_w + MARGIN > display_width env
         then (case flush_line (measure env) y_max space_w line_h v of
                 (False, v') \<Rightarrow> v'
               | (True, v') \<Rightarrow>
                   layout_loop env y_max space_w line_h tokens
                     (v'\<lparr>lv_y := lv_y v' + (line_h + 2), lv_line := [(txt, bold)], lv_line_w := w\<rparr>))
         else layout_loop env y_max space_w line_h tokens
                (v\<lparr>lv_line := lv_line v @ [(txt, bold)], lv_line_w := next_w\<rparr>))"

definition tokens_of :: "string \<Rightarrow> (string \<times> bool) list" where
  "tokens_of quote_text =
     (case split_caret_span quote_text of
        (pre, mid, post) \<Rightarrow>
          (if pre \<noteq> [] then map (\<lambda>w. (w, False)) (str_split_ws pre) else [])
          @ (case mid of None \<Rightarrow> [] | Some m \<Rightarrow> [(m, True)])
          @ (if post \<noteq> [] then map (\<lambda>w. (w, False)) (str_split_ws post) else []))"

text \<open>The group is emptied first, so the labels it held do not matter; the result is
  the group after the call.\<close>

definition layout_quote_into_group :: "display_env \<Rightarrow> label list \<Rightarrow> string \<Rightarrow> int \<Rightarrow> int option \<Rightarrow> label list" where
  "layout_quote_into_group env qgroup quote_text y_start y_max =
     (let qgroup0 = drop (length qgroup) qgroup;
          tokens = tokens_of quote_text;
          space_w = fst (measure env '' '');
          line_h = snd (measure env '' '')
      in lv_qgroup (layout_loop env y_max space_w line_h tokens
           \<lparr>lv_x = MARGIN, lv_y = y_start, lv_line = [], lv_line_w = 0, lv_qgroup = qgroup0\<rparr>))"

section \<open>Time format and sanitizer\<close>

definition fmt_time :: "int \<Rightarrow> int \<Rightarrow> string" where
  "fmt_time h m =
     (if TIME_24H then fmt_hhmm h m
      else
        let suf = (if h < 12 then ''AM'' else ''PM'');
            hh = h mod 12;
            hh' = (if hh = 0 then 12 else hh)
        in fmt_d hh' @ '':'' @ fmt_02d m @ '' '' @ suf)"

text \<open>The replacement table, for the code points the model's characters cover: the
  middle dot and the non-breaking space. Its other keys are code points above 255.\<close>

definition repl :: "char \<Rightarrow> string option" where
  "repl ch = (if ch = CHR 0xB7 then Some ''*'' else if ch = CHR 0xA0 then Some '' '' else None)"

definition sanitize_ascii :: "string \<Rightarrow> string" where
  "sanitize_ascii s =
     (if s = [] then s
      else concat (map (\<lambda>ch. case repl ch of
                                 Some r \<Rightarrow> r
                               | None \<Rightarrow> if (of_char ch :: nat) < 128 then [ch] else ''?'') s))"

section \<open>Float subtraction\<close>

text \<open>
  \<open>a - b\<close> on floats is the exact difference rounded to the nearest binary64 number,
  ties to the even mantissa. \<open>floor_log2 x\<close> is the \<open>e\<close> with \<open>2^e \<le> x < 2^(e+1)\<close> for
  \<open>x > 0\<close>; the spacing of the floats around \<open>x\<close> is \<open>2^(e-52)\<close>, and \<open>2^(-1074)\<close>
  below \<open>2^(-1022)\<close>. The readings of \<open>time.monotonic()\<close> are finite and not
  negative, so their difference is within the range of the floats.
\<close>

function bit_length :: "int \<Rightarrow> int" where
  "bit_length n = (if n \<le> 0 then 0 else 1 + bit_length (n div 2))"
  by pat_completeness auto
termination
  by (relation "Wellfounded.measure nat") auto

declare bit_length.simps [simp del]

definition pow2 :: "int \<Rightarrow> rat" where
  "pow2 e = (if 0 \<le> e then 2 ^ nat e else 1 / 2 ^ nat (- e))"

definition floor_log2 :: "rat \<Rightarrow> int" where
  "floor_log2 x =
     (let p = fst (quotient_of x);
          q = snd (quotient_of x);
          d = bit_length p - bit_length q
      in if pow2 d \<le> x then d else d - 1)"

definition round_half_even :: "rat \<Rightarrow> int" where
  "round_half_even x =
     (let f = \<lfloor>x\<rfloor>;
          r = x - of_int f
      in if r < 1 / 2 then f
         else if 1 / 2 < r then f + 1
         else if even f then f else f + 1)"

definition round_float :: "rat \<Rightarrow> rat" where
  "round_float x =
     (if x = 0 then 0
      else
        let e = max (floor_log2 \<bar>x\<bar>) (- 1022);
            ulp = pow2 (e - 52)
        in of_int (round_half_even (x / ulp)) * ulp)"

definition float_sub :: "rat \<Rightarrow> rat \<Rightarrow> rat" where
  "float_sub a b = round_float (a - b)"

section \<open>Clock, safe refresh, render and the time-set commit\<close>

record struct_time =
  tm_year :: int
  tm_mon :: int
  tm_mday :: int
  tm_hour :: int
  tm_min :: int
  tm_sec :: int
  tm_wday :: int
  tm_yday :: int
  tm_isdst :: int

datatype set_mode_t = SET_NONE | SET_H | SET_M | SET_SAVE

text \<open>What the program asks of the hardware, in order: a refresh of the display, or a
  sleep of so many seconds.\<close>

datatype hw_call = Refresh | Sleep rat

text \<open>
  The module's globals and the objects it mutates. \<open>rtc_datetime\<close> is the clock as
  \<open>get_now\<close> reads it; \<open>hw_calls\<close> records the calls made to the display and to
  \<open>time.sleep\<close>.
\<close>

record state =
  rtc_datetime :: struct_time
  last_refresh :: rat
  last_bucket :: "int option"
  quote_group :: "label list"
  meta_label_text :: string
  meta_label_pos :: "int \<times> int"
  time_label_text :: string
  time_label_pos :: "int \<times> int"
  set_mode :: set_mode_t
  edit_h :: int
  edit_m :: int
  hw_calls :: "hw_call list"

text \<open>
  What the hardware answers during one \<open>safe_refresh\<close>: the reading of
  \<open>time.monotonic()\<close> at its start, the outcome of the first \<open>display.refresh()\<close>
  (\<open>None\<close> when it returns, the exception when it raises), the reading of
  \<open>time.monotonic()\<close> after the retry, and the outcome of the retry.
\<close>

record hw_answers =
  mono1 :: rat
  refresh1 :: "py_error option"
  mono2 :: rat
  refresh2 :: "py_error option"

definition get_now :: "state \<Rightarrow> struct_time" where
  "get_now st = rtc_datetime st"


text \<open>
  The globals as the module initializes them, given what the clock reads at start-up.
\<close>

definition initial_state :: "struct_time \<Rightarrow> state" where
  "initial_state clock =
     \<lparr>rtc_datetime = clock, last_refresh = 0, last_bucket = None, quote_group = [],
      meta_label_text = [], meta_label_pos = (0, 0), time_label_text = [], time_label_pos = (0, 0),
      set_mode = SET_NONE, edit_h = 0, edit_m = 0, hw_calls = []\<rparr>"

definition safe_refresh :: "hw_answers \<Rightarrow> state \<Rightarrow> (py_error \<times> state) + state" where
  "safe_refresh hw st =
     (let nowm = mono1 hw in
      if float_sub nowm (last_refresh st) < MIN_REFRESH_GAP then Inr st
      else
        (case refresh1 hw of
           None \<Rightarrow> Inr (st\<lparr>last_refresh := nowm, hw_calls := hw_calls st @ [Refresh]\<rparr>)
         | Some e \<Rightarrow>
             if e = RuntimeError then
               (case refresh2 hw of
                  None \<Rightarrow>
                    Inr (st\<lparr>last_refresh := mono2 hw,
                            hw_calls := hw_calls st @ [Refresh, Sleep (1 / 2), Refresh]\<rparr>)
                | Some e2 \<Rightarrow>
                    if e2 = RuntimeError
                    then Inr (st\<lparr>hw_calls := hw_calls st @ [Refresh, Sleep (1 / 2), Refresh]\<rparr>)
                    else Inl (e2, st\<lparr>hw_calls := hw_calls st @ [Refresh, Sleep (1 / 2), Refresh]\<rparr>))
             else Inl (e, st\<lparr>hw_calls := hw_calls st @ [Refresh]\<rparr>)))"

definition render :: "bool \<Rightarrow> (int \<times> int) option \<Rightarrow> display_env \<Rightarrow> hw_answers \<Rightarrow> state \<Rightarrow> (py_error \<times> state) + state" where
  "render force live_preview_time env hw st =
     (let now = get_now st;
          hm = (case live_preview_time of Some t \<Rightarrow> t | None \<Rightarrow> (tm_hour now, tm_min now));
          h = fst hm;
          m = snd hm;
          bucket = (m div UPDATE_MINUTES) * UPDATE_MINUTES
      in if \<not> force \<and> live_preview_time = None \<and> Some bucket = last_bucket st then Inr st
         else
           (case pick_for_time (quotes_by_hhmm env) h m of
              Inl e \<Rightarrow> Inl (e, st)
            | Inr (quote_text, work, author, tag) \<Rightarrow>
                let meta_text = sanitize_ascii (work @ '' - '' @ author);
                    meta_y = display_height env - MARGIN;
                    meta_h = snd (measure env meta_text);
                    time_text = sanitize_ascii (''Time: '' @ fmt_time h m);
                    time_y = meta_y - meta_h - 4;
                    quote_top = MARGIN;
                    quote_bottom_limit = time_y - 8;
                    st1 = st\<lparr>meta_label_text := meta_text, meta_label_pos := (MARGIN, meta_y),
                             time_label_text := time_text, time_label_pos := (MARGIN, time_y),
                             quote_group :=
                               layout_quote_into_group env (quote_group st) quote_text quote_top
                                 (Some quote_bottom_limit)\<rparr>
                in (case safe_refresh hw st1 of
                      Inl raised \<Rightarrow> Inl raised
                    | Inr st2 \<Rightarrow>
                        Inr (if live_preview_time = None then st2\<lparr>last_bucket := Some bucket\<rparr>
                             else st2))))"



section \<open>Properties of the caret span\<close>

lemma find_idx_none: "c \<notin> set xs \<Longrightarrow> find_idx c xs i = -1"
  by (induction xs arbitrary: i) auto

lemma find_idx_some:
  "c \<in> set xs \<Longrightarrow> find_idx c xs i = int (i + length (takeWhile (\<lambda>x. x \<noteq> c) xs))"
  by (induction xs arbitrary: i) auto

lemma find_idx_neg_iff: "find_idx c xs i = -1 \<longleftrightarrow> c \<notin> set xs"
proof
  assume h: "find_idx c xs i = -1"
  show "c \<notin> set xs"
  proof
    assume "c \<in> set xs"
    from find_idx_some [OF this, of i] h show False by simp
  qed
next
  assume "c \<notin> set xs"
  then show "find_idx c xs i = -1" by (rule find_idx_none)
qed

lemma str_remove_id: "c \<notin> set xs \<Longrightarrow> str_remove c xs = xs"
  by (induction xs) (auto simp: str_remove_def)

lemma split_no_caret:
  "CHR ''^'' \<notin> set text \<Longrightarrow> split_caret_span text = (text, None, '''')"
  by (simp add: split_caret_span_def str_find_def find_idx_none)

lemma count_list_0_conv: "count_list xs c = 0 \<longleftrightarrow> c \<notin> set xs"
  by (induction xs) auto

lemma drop_takeWhile_len: "drop (length (takeWhile P xs)) xs = dropWhile P xs"
  by (induction xs) auto

lemma take_takeWhile_len: "take (length (takeWhile P xs)) xs = takeWhile P xs"
  by (induction xs) auto

lemma count_list_split:
  "c \<in> set xs \<Longrightarrow> count_list xs c = Suc (count_list (tl (dropWhile (\<lambda>x. x \<noteq> c) xs)) c)"
  by (induction xs) auto

lemma split_one_caret:
  assumes "count_list text CHR ''^'' = 1"
  shows "split_caret_span text = (str_remove CHR ''^'' text, None, [])"
proof -
  let ?c = "CHR ''^''"
  let ?P = "\<lambda>x. x \<noteq> ?c"
  from assms have mem: "?c \<in> set text"
    using count_list_0_conv [of "text" "?c"] by auto
  from count_list_split [OF mem] assms
  have "count_list (tl (dropWhile ?P text)) ?c = 0" by simp
  then have rest: "?c \<notin> set (tl (dropWhile ?P text))"
    by (simp add: count_list_0_conv)
  have a: "str_find text ?c 0 = int (length (takeWhile ?P text))"
    using find_idx_some [OF mem, of 0] by (simp add: str_find_def)
  have d: "drop (Suc (length (takeWhile ?P text))) text = tl (dropWhile ?P text)"
    by (simp add: drop_Suc drop_tl drop_takeWhile_len)
  have b: "str_find text ?c (nat (int (length (takeWhile ?P text))) + 1) = -1"
    using rest by (simp add: str_find_def d find_idx_none)
  show ?thesis
    unfolding split_caret_span_def Let_def a b by simp
qed

lemma split_two_carets:
  assumes "2 \<le> count_list text CHR ''^''"
  shows "split_caret_span text =
     (takeWhile (\<lambda>x. x \<noteq> CHR ''^'') text,
      Some (takeWhile (\<lambda>x. x \<noteq> CHR ''^'') (tl (dropWhile (\<lambda>x. x \<noteq> CHR ''^'') text))),
      str_remove CHR ''^''
        (tl (dropWhile (\<lambda>x. x \<noteq> CHR ''^'') (tl (dropWhile (\<lambda>x. x \<noteq> CHR ''^'') text)))))"
proof -
  let ?c = "CHR ''^''"
  let ?P = "\<lambda>x. x \<noteq> ?c"
  let ?n = "length (takeWhile ?P text)"
  let ?rest = "tl (dropWhile ?P text)"
  let ?k = "length (takeWhile ?P ?rest)"
  from assms have mem: "?c \<in> set text"
    using count_list_0_conv [of "text" "?c"] by auto
  from count_list_split [OF mem] assms
  have "count_list ?rest ?c \<noteq> 0" by simp
  then have rest: "?c \<in> set ?rest"
    by (simp add: count_list_0_conv)
  have a: "str_find text ?c 0 = int ?n"
    using find_idx_some [OF mem, of 0] by (simp add: str_find_def)
  have d: "drop (Suc ?n) text = ?rest"
    by (simp add: drop_Suc drop_tl drop_takeWhile_len)
  have b: "str_find text ?c (?n + 1) = int (Suc ?n + ?k)"
    using find_idx_some [OF rest, of "Suc ?n"] by (simp add: str_find_def d)
  have na: "int ?n \<noteq> -1" and nb: "int (Suc ?n + ?k) \<noteq> -1" by linarith+
  have pre: "slice text 0 ?n = takeWhile ?P text"
    by (simp add: slice_def take_takeWhile_len)
  have mid: "slice text (?n + 1) (Suc ?n + ?k) = takeWhile ?P ?rest"
    using d by (simp add: slice_def take_takeWhile_len)
  have "drop (Suc ?n + ?k + 1) text = drop (Suc ?k) (drop (Suc ?n) text)"
    by (simp add: add.commute)
  also have "\<dots> = drop (Suc ?k) ?rest"
    by (simp only: d)
  also have "\<dots> = tl (drop ?k ?rest)"
    by (simp only: drop_Suc drop_tl)
  also have "\<dots> = tl (dropWhile ?P ?rest)"
    by (simp only: drop_takeWhile_len)
  finally have post: "drop (Suc ?n + ?k + 1) text = tl (dropWhile ?P ?rest)" .
  have p1: "str_remove ?c (takeWhile ?P text) = takeWhile ?P text"
    by (rule str_remove_id) (auto dest: set_takeWhileD)
  have p2: "str_remove ?c (takeWhile ?P ?rest) = takeWhile ?P ?rest"
    by (rule str_remove_id) (auto dest: set_takeWhileD)
  show ?thesis
    unfolding split_caret_span_def Let_def a nat_int b
    by (simp only: na nb if_False nat_int pre mid post p1 p2)
qed

lemma split_caret_span_refines: "split_caret_span text = split_spec text"
proof -
  let ?c = "CHR ''^''"
  consider "count_list text ?c = 0" | "count_list text ?c = 1" | "2 \<le> count_list text ?c"
    by linarith
  then show ?thesis
  proof cases
    case 1
    then have "?c \<notin> set text" by (simp add: count_list_0_conv)
    with "1" show ?thesis by (simp add: split_no_caret split_spec_def)
  next
    case 2
    then show ?thesis by (simp add: split_one_caret split_spec_def str_remove_def)
  next
    case 3
    have p1: "str_remove ?c (takeWhile (\<lambda>x. x \<noteq> ?c) t) = takeWhile (\<lambda>x. x \<noteq> ?c) t" for t
      by (rule str_remove_id) (auto dest: set_takeWhileD)
    from "3" show ?thesis
      by (simp add: split_two_carets split_spec_def Let_def p1 str_remove_def [symmetric])
  qed
qed

lemma split_output_caret_free:
  assumes "split_caret_span text = (pre, mid, post)"
  shows "CHR ''^'' \<notin> set pre \<and> CHR ''^'' \<notin> set post \<and> (\<forall>m. mid = Some m \<longrightarrow> CHR ''^'' \<notin> set m)"
  using assms
  by (auto simp: split_caret_span_def Let_def str_remove_def str_find_def find_idx_neg_iff
      split: if_splits)

section \<open>The caret span: the claims\<close>

text \<open>
  Claim C5. For every text the splitter goes by the number of \<open>^\<close> sentinels as the
  specification says (\<open>split_spec\<close>): none, the text itself with no highlight; one, the
  text without that sentinel and no highlight; two or more, the text before the first,
  the span between the first and the second, and the text after the second, with every
  further sentinel removed from each. In particular \<open>before ^highlight^ after\<close> splits
  into \<open>before \<close>, \<open>highlight\<close> and \<open> after\<close>, and in \<open>a^b^c^d^e\<close> and
  \<open>^^x^y^\<close> the sentinels after the second are gone from the rest.
\<close>

theorem split_caret_span_by_sentinel_count:
  "split_caret_span text = split_spec text
   \<and> split_caret_span ''before ^highlight^ after'' = (''before '', Some ''highlight'', '' after'')
   \<and> split_caret_span ''no markup here'' = (''no markup here'', None, [])
   \<and> split_caret_span ''only ^one caret'' = (''only one caret'', None, [])
   \<and> split_caret_span ''a^b^c^d^e'' = (''a'', Some ''b'', ''cde'')
   \<and> split_caret_span ''^^x^y^'' = ([], Some [], ''xy'')"
proof (intro conjI)
  show "split_caret_span text = split_spec text"
    by (rule split_caret_span_refines)
  show "split_caret_span ''before ^highlight^ after'' = (''before '', Some ''highlight'', '' after'')"
    by code_simp
  show "split_caret_span ''no markup here'' = (''no markup here'', None, [])"
    by code_simp
  show "split_caret_span ''only ^one caret'' = (''only one caret'', None, [])"
    by code_simp
  show "split_caret_span ''a^b^c^d^e'' = (''a'', Some ''b'', ''cde'')"
    by code_simp
  show "split_caret_span ''^^x^y^'' = ([], Some [], ''xy'')"
    by code_simp
qed

text \<open>
  Claim C6. The splitter is idempotent on its own output: whatever \<open>pre\<close>, \<open>mid\<close> and
  \<open>post\<close> it returns hold no sentinel, so splitting any of them again returns it
  unchanged, with no highlight and an empty rest.
\<close>

theorem split_caret_span_idempotent:
  assumes "split_caret_span text = (pre, mid, post)"
  shows "split_caret_span pre = (pre, None, '''')
         \<and> split_caret_span post = (post, None, '''')
         \<and> (\<forall>m. mid = Some m \<longrightarrow> split_caret_span m = (m, None, ''''))"
  using split_output_caret_free [OF assms] by (simp add: split_no_caret)

theorem split_caret_span_idempotent_witness:
  "split_caret_span ''a ^b^ c^d'' = (''a '', Some ''b'', '' cd'')
   \<and> split_caret_span ''a '' = (''a '', None, '''')
   \<and> split_caret_span '' cd'' = ('' cd'', None, '''')
   \<and> split_caret_span ''b'' = (''b'', None, '''')"
proof -
  have h: "split_caret_span ''a ^b^ c^d'' = (''a '', Some ''b'', '' cd'')"
    by code_simp
  from split_caret_span_idempotent [OF h] h show ?thesis by simp
qed

section \<open>The loader: the claims\<close>

lemma setdefault_append_inv:
  assumes "list_all (\<lambda>(k, l). key_shape k \<and> l \<noteq> []) mapping" and "key_shape k"
  shows "list_all (\<lambda>(k, l). key_shape k \<and> l \<noteq> []) (setdefault_append mapping k v)"
  using assms by (induction mapping) auto

lemma get_list_setdefault_append:
  "get_list (setdefault_append mapping k v) k' =
     (if k' = k then get_list mapping k @ [v] else get_list mapping k')"
  by (induction mapping) (auto simp: get_list_def)

lemma load_line_cases:
  assumes "load_line mapping raw = Inr mapping'"
  shows "(mapping' = mapping \<and> (\<forall>k. line_records k raw = []))
       \<or> (\<exists>k v. key_shape k \<and> mapping' = setdefault_append mapping k v
              \<and> (\<forall>k'. line_records k' raw = (if k' = k then [v] else [])))"
proof -
  let ?raw = "str_rstrip [CHR 0x0D, CHR 0x0A] raw"
  let ?parts = "str_split_max CHR ''|'' 4 ?raw"
  let ?v = "(?parts ! 1, ?parts ! 2, ?parts ! 3, ?parts ! 4)"
  show ?thesis
  proof (cases "?raw = [] \<or> hd ?raw = CHR ''#'' \<or> length ?parts < 5")
    case True
    with assms have "mapping' = mapping"
      by (auto simp: load_line_def Let_def split: if_splits sum.splits)
    moreover from True have "\<forall>k. line_records k raw = []"
      by (auto simp: line_records_def Let_def split: if_splits)
    ultimately show ?thesis by simp
  next
    case False
    with assms obtain hhmm where n: "normalize_hhmm (?parts ! 0) = Inr hhmm"
      by (auto simp: load_line_def Let_def split: sum.splits)
    show ?thesis
    proof (cases "length hhmm = 5 \<and> hhmm ! 2 = CHR '':''")
      case True
      with False n assms have m: "mapping' = setdefault_append mapping hhmm ?v"
        by (auto simp: load_line_def Let_def split: if_splits sum.splits)
      from True False n have "\<forall>k'. line_records k' raw = (if k' = hhmm then [?v] else [])"
        by (auto simp: line_records_def Let_def split: if_splits)
      with True m show ?thesis
        unfolding key_shape_def by blast
    next
      case no_shape: False
      with False n assms have "mapping' = mapping"
        by (auto simp: load_line_def Let_def split: if_splits sum.splits)
      moreover from no_shape False n have "\<forall>k. line_records k raw = []"
        by (auto simp: line_records_def Let_def split: if_splits)
      ultimately show ?thesis by simp
    qed
  qed
qed

lemma load_line_inv:
  assumes "load_line mapping raw = Inr mapping'"
    and "list_all (\<lambda>(k, l). key_shape k \<and> l \<noteq> []) mapping"
  shows "list_all (\<lambda>(k, l). key_shape k \<and> l \<noteq> []) mapping'"
  using load_line_cases [OF assms(1)] assms(2) setdefault_append_inv by auto

lemma load_line_get_list:
  assumes "load_line mapping raw = Inr mapping'"
  shows "get_list mapping' k = get_list mapping k @ line_records k raw"
  using load_line_cases [OF assms] by (auto simp: get_list_setdefault_append)

lemma load_loop_inv:
  assumes "load_loop mapping ls = Inr idx"
    and "list_all (\<lambda>(k, l). key_shape k \<and> l \<noteq> []) mapping"
  shows "list_all (\<lambda>(k, l). key_shape k \<and> l \<noteq> []) idx"
  using assms
proof (induction ls arbitrary: mapping)
  case Nil
  then show ?case by simp
next
  case (Cons raw rest)
  from Cons.prems(1) obtain m' where
    step: "load_line mapping raw = Inr m'" and rest: "load_loop m' rest = Inr idx"
    by (auto split: sum.splits)
  from Cons.IH [OF rest load_line_inv [OF step Cons.prems(2)]] show ?case .
qed

lemma load_loop_get_list:
  assumes "load_loop mapping ls = Inr idx"
  shows "get_list idx k = get_list mapping k @ records_for k ls"
  using assms
proof (induction ls arbitrary: mapping)
  case Nil
  then show ?case by (simp add: records_for_def)
next
  case (Cons raw rest)
  from Cons.prems obtain m' where
    step: "load_line mapping raw = Inr m'" and rest: "load_loop m' rest = Inr idx"
    by (auto split: sum.splits)
  from Cons.IH [OF rest] load_line_get_list [OF step, of k] show ?case
    by (simp add: records_for_def)
qed

lemma load_quotes_csv_inv:
  assumes "load_quotes_csv src = Inr idx"
  shows "list_all (\<lambda>(k, l). key_shape k \<and> l \<noteq> []) idx"
proof (cases src)
  case Unreadable
  with assms show ?thesis by (simp add: load_quotes_csv_def)
next
  case (Lines ls)
  with assms have "load_loop [] ls = Inr idx" by (simp add: load_quotes_csv_def)
  from load_loop_inv [OF this] show ?thesis by simp
qed

lemma load_quotes_csv_lookup:
  assumes "load_quotes_csv (Lines ls) = Inr idx"
  shows "map_of idx k = (if records_for k ls = [] then None else Some (records_for k ls))"
proof -
  from assms have l: "load_loop [] ls = Inr idx" by (simp add: load_quotes_csv_def)
  from load_loop_get_list [OF l, of k] have g: "get_list idx k = records_for k ls"
    by (simp add: get_list_def)
  show ?thesis
  proof (cases "map_of idx k")
    case None
    with g show ?thesis by (simp add: get_list_def)
  next
    case (Some l)
    then have "(k, l) \<in> set idx" by (rule map_of_SomeD)
    with load_quotes_csv_inv [OF assms] have "l \<noteq> []"
      by (auto simp: list_all_iff)
    with g Some show ?thesis by (simp add: get_list_def)
  qed
qed

text \<open>
  Claim C1 fails on the code. The header of the module gives the format of a line as
  \<open>hhmm|quote|work|author|tag\<close>, but the time field \<open>0900\<close> has four characters and no
  colon, so neither the rewriting of \<open>H:MM\<close> nor the test for \<open>HH:MM\<close> takes it: the
  line is skipped, the index is empty, the fallback entries replace it, and the selection
  at 09:00 ends at the last resort, the quote of the first key, \<open>^Midnight^.\<close>. With the
  colon written, \<open>09:00\<close> or \<open>9:00\<close>, the same record is loaded under \<open>09:00\<close>,
  selected, and split into \<open>Hello \<close>, \<open>world\<close> and \<open>.\<close>.
\<close>

theorem load_hhmm_without_colon_skipped:
  "load_quotes_csv (Lines [''0900|Hello ^world^.|Book|Author|tag'']) = Inr []
   \<and> pick_for_time (QUOTES_BY_HHMM []) 9 0 = Inr (''^Midnight^.'', ''Fallback'', ''System'', ''unknown'')
   \<and> split_caret_span ''^Midnight^.'' = ('''', Some ''Midnight'', ''.'')
   \<and> split_caret_span ''^Midnight^.'' \<noteq> (''Hello '', Some ''world'', ''.'')
   \<and> load_quotes_csv (Lines [''09:00|Hello ^world^.|Book|Author|tag''])
     = Inr [(''09:00'', [(''Hello ^world^.'', ''Book'', ''Author'', ''tag'')])]
   \<and> load_quotes_csv (Lines [''9:00|Hello ^world^.|Book|Author|tag''])
     = Inr [(''09:00'', [(''Hello ^world^.'', ''Book'', ''Author'', ''tag'')])]
   \<and> pick_for_time (QUOTES_BY_HHMM [(''09:00'', [(''Hello ^world^.'', ''Book'', ''Author'', ''tag'')])]) 9 0
     = Inr (''Hello ^world^.'', ''Book'', ''Author'', ''tag'')
   \<and> split_caret_span ''Hello ^world^.'' = (''Hello '', Some ''world'', ''.'')"
  by code_simp

text \<open>
  Claim C2 fails on the code. A time field of four characters with a colon in second
  place goes to \<open>int()\<close>, and \<open>int("a")\<close> raises \<open>ValueError\<close>, which the
  \<open>except OSError\<close> clause does not catch: the load raises, and the valid line after it
  is lost with it. A second colon makes the unpacking of \<open>hhmm.split(":")\<close> raise the
  same way.
\<close>

theorem load_raises_on_bad_time_field:
  "load_quotes_csv (Lines [''a:1x|q|w|a|t'']) = Inl ValueError
   \<and> load_quotes_csv (Lines [''a:1x|q|w|a|t'', ''09:00|Hello ^world^.|Book|Author|tag'']) = Inl ValueError
   \<and> load_quotes_csv (Lines [''1:2:|q|w|a|t'']) = Inl ValueError"
  by code_simp

text \<open>
  Claim C9, as stated, fails: the loader's only test of a key is its length and its third
  character, so \<open>99:99\<close> becomes a key, and \<open>9:75\<close> is normalized to the key
  \<open>09:75\<close>; neither is a time of day.
\<close>

theorem load_key_not_a_time_counterexample:
  "load_quotes_csv (Lines [''99:99|q|w|a|t'', ''9:75|q|w|a|t''])
     = Inr [(''99:99'', [(''q'', ''w'', ''a'', ''t'')]), (''09:75'', [(''q'', ''w'', ''a'', ''t'')])]
   \<and> \<not> valid_time_key ''99:99'' \<and> \<not> valid_time_key ''09:75''"
  by code_simp

text \<open>
  Claim C9, amended. Every key of the index the loader returns has five characters, the
  third a colon, and holds at least one record; the other four characters are not
  checked, so a key need not be zero-padded digits nor a time of day. A time field that
  does not have this shape after normalization is rejected and its line skipped: the line
  gives nothing to any key and the loop leaves the mapping as it was, and the index
  holds under each key exactly the records of the lines whose time field, after
  normalization, is that key, in file order (\<open>records_for\<close>). For instance
  normalization turns \<open>9:05\<close> and \<open> 09:05 \<close> into \<open>09:05\<close> and \<open>1:-2\<close> into
  \<open>01:-2\<close>, and leaves \<open>0900\<close>, \<open>99:99\<close> and \<open>ab:cd\<close> as they are; and of a line
  ending, a comment, a blank line, a line of four fields, a line with a sixth field and
  a line with the colon missing, only the lines with five fields or more and a key of
  that shape are kept.
\<close>

theorem load_keys_have_shape:
  "(load_quotes_csv (Lines ls) = Inr idx \<longrightarrow>
      (\<forall>(k, l) \<in> set idx. key_shape k \<and> l \<noteq> [])
      \<and> (\<forall>k. map_of idx k = (if records_for k ls = [] then None else Some (records_for k ls))))
   \<and> (\<not> key_shape key \<longrightarrow> line_records key raw = [])
   \<and> (load_line mapping raw = Inr mapping' \<and> (\<forall>k. line_records k raw = []) \<longrightarrow> mapping' = mapping)
   \<and> load_quotes_csv Unreadable = Inr []
   \<and> load_quotes_csv
        (Lines [''09:05|q|w|a|t|u'' @ [CHR 0x0D, CHR 0x0A], ''# 09:06|q|w|a|t'', [], [CHR 0x0A],
                ''09:07|q|w|a'', '' 9:08 |q2|w|a|t'', ''0909|q|w|a|t'', ''09:05|q3|w|a|t''])
       = Inr [(''09:05'', [(''q'', ''w'', ''a'', ''t|u''), (''q3'', ''w'', ''a'', ''t'')]),
              (''09:08'', [(''q2'', ''w'', ''a'', ''t'')])]
   \<and> normalize_hhmm ''9:05'' = Inr ''09:05''
   \<and> normalize_hhmm '' 09:05 '' = Inr ''09:05''
   \<and> normalize_hhmm ''1:-2'' = Inr ''01:-2''
   \<and> normalize_hhmm ''0900'' = Inr ''0900''
   \<and> normalize_hhmm ''99:99'' = Inr ''99:99''
   \<and> normalize_hhmm ''ab:cd'' = Inr ''ab:cd''"
proof (intro conjI impI)
  assume a: "load_quotes_csv (Lines ls) = Inr idx"
  from load_quotes_csv_inv [OF a] show "\<forall>(k, l) \<in> set idx. key_shape k \<and> l \<noteq> []"
    by (simp add: list_all_iff)
  from load_quotes_csv_lookup [OF a]
  show "\<forall>k. map_of idx k = (if records_for k ls = [] then None else Some (records_for k ls))"
    by blast
next
  assume "\<not> key_shape key"
  then show "line_records key raw = []"
    by (simp add: line_records_def key_shape_def Let_def)
next
  assume a: "load_line mapping raw = Inr mapping' \<and> (\<forall>k. line_records k raw = [])"
  then have "load_line mapping raw = Inr mapping'" and none: "\<forall>k. line_records k raw = []"
    by simp_all
  from load_line_cases [OF this(1)] none show "mapping' = mapping"
    by (metis list.distinct(1))
next
  show "load_quotes_csv Unreadable = Inr []" by (simp add: load_quotes_csv_def)
  show "load_quotes_csv
        (Lines [''09:05|q|w|a|t|u'' @ [CHR 0x0D, CHR 0x0A], ''# 09:06|q|w|a|t'', [], [CHR 0x0A],
                ''09:07|q|w|a'', '' 9:08 |q2|w|a|t'', ''0909|q|w|a|t'', ''09:05|q3|w|a|t''])
       = Inr [(''09:05'', [(''q'', ''w'', ''a'', ''t|u''), (''q3'', ''w'', ''a'', ''t'')]),
              (''09:08'', [(''q2'', ''w'', ''a'', ''t'')])]"
    by code_simp
  show "normalize_hhmm ''9:05'' = Inr ''09:05''" by code_simp
  show "normalize_hhmm '' 09:05 '' = Inr ''09:05''" by code_simp
  show "normalize_hhmm ''1:-2'' = Inr ''01:-2''" by code_simp
  show "normalize_hhmm ''0900'' = Inr ''0900''" by code_simp
  show "normalize_hhmm ''99:99'' = Inr ''99:99''" by code_simp
  show "normalize_hhmm ''ab:cd'' = Inr ''ab:cd''" by code_simp
qed

theorem load_keys_have_shape_witness:
  "load_quotes_csv
      (Lines [''9:05|q|w|a|t'', ''no fields'', ''99:99|x|y|z|u'', ''0900|n|n|n|n'', '' 09:05 |q2|w|a|t''])
     = Inr [(''09:05'', [(''q'', ''w'', ''a'', ''t''), (''q2'', ''w'', ''a'', ''t'')]),
            (''99:99'', [(''x'', ''y'', ''z'', ''u'')])]
   \<and> key_shape ''09:05'' \<and> key_shape ''99:99''
   \<and> records_for ''09:05''
        [''9:05|q|w|a|t'', ''no fields'', ''99:99|x|y|z|u'', ''0900|n|n|n|n'', '' 09:05 |q2|w|a|t'']
     = [(''q'', ''w'', ''a'', ''t''), (''q2'', ''w'', ''a'', ''t'')]
   \<and> map_of [(''09:05'', [(''q'', ''w'', ''a'', ''t''), (''q2'', ''w'', ''a'', ''t'')]),
            (''99:99'', [(''x'', ''y'', ''z'', ''u'')])] ''09:05''
     = Some [(''q'', ''w'', ''a'', ''t''), (''q2'', ''w'', ''a'', ''t'')]
   \<and> records_for ''0900''
        [''9:05|q|w|a|t'', ''no fields'', ''99:99|x|y|z|u'', ''0900|n|n|n|n'', '' 09:05 |q2|w|a|t'']
     = []
   \<and> map_of [(''09:05'', [(''q'', ''w'', ''a'', ''t''), (''q2'', ''w'', ''a'', ''t'')]),
            (''99:99'', [(''x'', ''y'', ''z'', ''u'')])] ''0900''
     = None
   \<and> \<not> key_shape ''0900''
   \<and> line_records ''0900'' ''0900|n|n|n|n'' = []
   \<and> load_line [(''09:05'', [(''q'', ''w'', ''a'', ''t'')])] ''0900|n|n|n|n''
     = Inr [(''09:05'', [(''q'', ''w'', ''a'', ''t'')])]"
proof -
  let ?ls = "[''9:05|q|w|a|t'', ''no fields'', ''99:99|x|y|z|u'', ''0900|n|n|n|n'', '' 09:05 |q2|w|a|t'']"
  let ?idx = "[(''09:05'', [(''q'', ''w'', ''a'', ''t''), (''q2'', ''w'', ''a'', ''t'')]),
               (''99:99'', [(''x'', ''y'', ''z'', ''u'')])]"
  let ?m = "[(''09:05'', [(''q'', ''w'', ''a'', ''t'')])]"
  have h1: "load_quotes_csv (Lines ?ls) = Inr ?idx"
    by code_simp
  have h2: "records_for ''09:05'' ?ls = [(''q'', ''w'', ''a'', ''t''), (''q2'', ''w'', ''a'', ''t'')]"
    by code_simp
  have h3: "records_for ''0900'' ?ls = []"
    by code_simp
  have h4: "\<not> key_shape ''0900''"
    by (simp add: key_shape_def)
  have h5: "load_line ?m ''0900|n|n|n|n'' = Inr ?m"
    by code_simp
  have parts: "str_split_max CHR ''|'' 4 (str_rstrip [CHR 0x0D, CHR 0x0A] ''0900|n|n|n|n'')
                 = [''0900'', ''n'', ''n'', ''n'', ''n'']"
    by code_simp
  have norm: "normalize_hhmm ''0900'' = Inr ''0900''"
    by code_simp
  have h6: "\<forall>k. line_records k ''0900|n|n|n|n'' = []"
    unfolding line_records_def Let_def parts using norm by auto
  from load_keys_have_shape [of ?ls ?idx "''0900''" "''0900|n|n|n|n''" ?m ?m] h1 h2 h3 h4 h5 h6
  show ?thesis by simp
qed

section \<open>Quote selection: the claims\<close>

lemma digit_char: "n < 10 \<Longrightarrow> char_of (48 + n) = ''0123456789'' ! n"
proof -
  assume "n < 10"
  then have "n \<in> set [0..<10]" by simp
  moreover have "list_all (\<lambda>d. char_of (48 + d) = ''0123456789'' ! d) [0..<10]"
    by code_simp
  ultimately show ?thesis
    by (simp only: list_all_iff)
qed

lemma dec_nat_one_digit: "n < 10 \<Longrightarrow> dec_nat n = [''0123456789'' ! n]"
  by (subst dec_nat.simps) (simp add: digit_char)

lemma dec_nat_two_digits:
  "10 \<le> n \<Longrightarrow> n < 100 \<Longrightarrow> dec_nat n = [''0123456789'' ! (n div 10), ''0123456789'' ! (n mod 10)]"
  by (subst dec_nat.simps) (simp add: dec_nat_one_digit digit_char)

lemma fmt_02d_digits:
  assumes "0 \<le> i" and "i \<le> 99"
  shows "fmt_02d i = [''0123456789'' ! (nat i div 10), ''0123456789'' ! (nat i mod 10)]"
proof (cases "nat i < 10")
  case True
  with assms show ?thesis by (simp add: fmt_02d_def zfill_def dec_nat_one_digit)
next
  case False
  with assms have "10 \<le> nat i" "nat i < 100" by linarith+
  with assms show ?thesis by (simp add: fmt_02d_def zfill_def dec_nat_two_digits)
qed

lemma fmt_hhmm_digits:
  assumes "0 \<le> h" "h \<le> 99" "0 \<le> m" "m \<le> 99"
  shows "fmt_hhmm h m =
     [''0123456789'' ! (nat h div 10), ''0123456789'' ! (nat h mod 10), CHR '':'',
      ''0123456789'' ! (nat m div 10), ''0123456789'' ! (nat m mod 10)]"
  using assms by (simp add: fmt_hhmm_def fmt_02d_digits)

lemma map_of_Some_nonempty:
  assumes "\<forall>(k, l) \<in> set quotes. l \<noteq> []" and "map_of quotes key = Some l"
  shows "(key, l) \<in> set quotes \<and> l \<noteq> []"
  using assms map_of_SomeD [of quotes key l] by auto

lemma pick_exact:
  assumes "\<forall>(k, l) \<in> set quotes. l \<noteq> []" and "map_of quotes (fmt_hhmm h m) = Some l"
  shows "pick_for_time quotes h m = Inr (l ! nat (h mod int (length l)))"
  using map_of_Some_nonempty [OF assms] assms(2)
  by (simp add: pick_for_time_def falsy_def)

lemma pick_bucket:
  assumes "\<forall>(k, l) \<in> set quotes. l \<noteq> []" and "map_of quotes (fmt_hhmm h m) = None"
    and "map_of quotes (fmt_hhmm h (m div UPDATE_MINUTES * UPDATE_MINUTES)) = Some l"
  shows "pick_for_time quotes h m = Inr (l ! nat (h mod int (length l)))"
  using map_of_Some_nonempty [OF assms(1) assms(3)] assms(2) assms(3)
  by (simp add: pick_for_time_def falsy_def)

lemma pick_last_resort:
  assumes "\<forall>(k, l) \<in> set quotes. l \<noteq> []" and "quotes = (k0, l0) # rest"
    and "map_of quotes (fmt_hhmm h m) = None"
    and "map_of quotes (fmt_hhmm h (m div UPDATE_MINUTES * UPDATE_MINUTES)) = None"
  shows "pick_for_time quotes h m = Inr (l0 ! nat (h mod int (length l0)))"
proof -
  from assms(1,2) have "l0 \<noteq> []" by auto
  with assms(2,3,4) show ?thesis
    by (simp add: pick_for_time_def falsy_def)
qed

lemma pick_some_list:
  assumes "quotes \<noteq> []" and "\<forall>(k, l) \<in> set quotes. l \<noteq> []"
  shows "\<exists>k l. (k, l) \<in> set quotes \<and> l \<noteq> []
           \<and> pick_for_time quotes h m = Inr (l ! nat (h mod int (length l)))"
proof (cases "map_of quotes (fmt_hhmm h m)")
  case (Some l)
  from map_of_Some_nonempty [OF assms(2) Some] pick_exact [OF assms(2) Some]
  show ?thesis by blast
next
  case None
  show ?thesis
  proof (cases "map_of quotes (fmt_hhmm h (m div UPDATE_MINUTES * UPDATE_MINUTES))")
    case (Some l)
    from map_of_Some_nonempty [OF assms(2) Some] pick_bucket [OF assms(2) None Some]
    show ?thesis by blast
  next
    case none2: None
    from assms(1) obtain k0 l0 rest where q: "quotes = (k0, l0) # rest"
      by (cases quotes) auto
    with assms(2) have "(k0, l0) \<in> set quotes" "l0 \<noteq> []" by auto
    with pick_last_resort [OF assms(2) q None none2] show ?thesis by blast
  qed
qed

lemma QUOTES_BY_HHMM_well_formed:
  assumes "load_quotes_csv src = Inr loaded"
  shows "QUOTES_BY_HHMM loaded \<noteq> [] \<and> (\<forall>(k, l) \<in> set (QUOTES_BY_HHMM loaded). l \<noteq> [])"
  using load_quotes_csv_inv [OF assms]
  by (auto simp: QUOTES_BY_HHMM_def fallback_quotes_def list_all_iff)

text \<open>
  Claim C3. Take an hour in 0..23 and a minute in 0..59, and a non-empty index (every key
  of an index has at least one record, as in every index the module builds). Let \<open>key\<close>
  be the five characters \<open>HH:MM\<close>, the two decimal digits of the hour, a colon, the two
  of the minute, and \<open>bucket_key\<close> the same with the minute rounded down to a multiple
  of 5. When \<open>key\<close> is present the selection returns the element of its list at position
  hour mod length; otherwise, when \<open>bucket_key\<close> is present, the element of that list
  at the same position; and in every case, the last resort included, it returns an
  element of some key's list and raises nothing.
\<close>

theorem pick_for_time_exact_bucket_last_resort:
  assumes "0 \<le> h" "h \<le> 23" "0 \<le> m" "m \<le> 59"
    and "quotes \<noteq> []" and "\<forall>(k, l) \<in> set quotes. l \<noteq> []"
    and "key =
      [''0123456789'' ! (nat h div 10), ''0123456789'' ! (nat h mod 10), CHR '':'',
       ''0123456789'' ! (nat m div 10), ''0123456789'' ! (nat m mod 10)]"
    and "bucket_key =
      [''0123456789'' ! (nat h div 10), ''0123456789'' ! (nat h mod 10), CHR '':'',
       ''0123456789'' ! ((nat m div 5 * 5) div 10), ''0123456789'' ! ((nat m div 5 * 5) mod 10)]"
  shows "(\<forall>l. map_of quotes key = Some l \<longrightarrow>
           pick_for_time quotes h m = Inr (l ! (nat h mod length l)))
    \<and> (map_of quotes key = None \<longrightarrow>
         (\<forall>l. map_of quotes bucket_key = Some l \<longrightarrow>
              pick_for_time quotes h m = Inr (l ! (nat h mod length l))))
    \<and> (\<exists>k l. (k, l) \<in> set quotes \<and> nat h mod length l < length l
           \<and> pick_for_time quotes h m = Inr (l ! (nat h mod length l)))"
proof -
  have rot: "nat (h mod int (length l)) = nat h mod length l" for l :: "quote list"
    using assms(1) by (simp add: nat_mod_distrib)
  have k: "fmt_hhmm h m = key"
    using assms(1-4,7) by (simp add: fmt_hhmm_digits)
  have bm: "0 \<le> m div 5 * 5" "m div 5 * 5 \<le> 99" "nat (m div 5 * 5) = nat m div 5 * 5"
    using assms(3,4) by (auto simp: nat_div_distrib nat_mult_distrib)
  have bk: "fmt_hhmm h (m div UPDATE_MINUTES * UPDATE_MINUTES) = bucket_key"
    using assms(1,2,8) bm by (simp add: fmt_hhmm_digits UPDATE_MINUTES_def)
  show ?thesis
  proof (intro conjI allI impI)
    fix l assume "map_of quotes key = Some l"
    with k have "map_of quotes (fmt_hhmm h m) = Some l" by simp
    from pick_exact [OF assms(6) this]
    show "pick_for_time quotes h m = Inr (l ! (nat h mod length l))"
      by (simp add: rot)
  next
    fix l
    assume "map_of quotes key = None" and "map_of quotes bucket_key = Some l"
    with k bk have "map_of quotes (fmt_hhmm h m) = None"
      and "map_of quotes (fmt_hhmm h (m div UPDATE_MINUTES * UPDATE_MINUTES)) = Some l"
      by simp_all
    from pick_bucket [OF assms(6) this]
    show "pick_for_time quotes h m = Inr (l ! (nat h mod length l))"
      by (simp add: rot)
  next
    from pick_some_list [OF assms(5,6), of h m]
    obtain k0 l0 where "(k0, l0) \<in> set quotes" "l0 \<noteq> []"
      "pick_for_time quotes h m = Inr (l0 ! nat (h mod int (length l0)))"
      by blast
    then show "\<exists>k l. (k, l) \<in> set quotes \<and> nat h mod length l < length l
           \<and> pick_for_time quotes h m = Inr (l ! (nat h mod length l))"
      by (intro exI [of _ k0] exI [of _ l0]) (simp add: rot)
  qed
qed

theorem pick_for_time_exact_bucket_last_resort_witness:
  "(0::int) \<le> 9 \<and> (9::int) \<le> 23 \<and> (0::int) \<le> 47 \<and> (47::int) \<le> 59
   \<and> [(''09:45'', [(''a'', ''w'', ''x'', ''t''), (''b'', ''w'', ''x'', ''t'')]),
       (''13:45'', [(''c'', ''w'', ''x'', ''t''), (''d'', ''w'', ''x'', ''t'')])] \<noteq> []
   \<and> map_of [(''09:45'', [(''a'', ''w'', ''x'', ''t''), (''b'', ''w'', ''x'', ''t'')]),
             (''13:45'', [(''c'', ''w'', ''x'', ''t''), (''d'', ''w'', ''x'', ''t'')])] ''09:47''
       = None
   \<and> map_of [(''09:45'', [(''a'', ''w'', ''x'', ''t''), (''b'', ''w'', ''x'', ''t'')]),
             (''13:45'', [(''c'', ''w'', ''x'', ''t''), (''d'', ''w'', ''x'', ''t'')])] ''09:45''
       = Some [(''a'', ''w'', ''x'', ''t''), (''b'', ''w'', ''x'', ''t'')]
   \<and> pick_for_time
        [(''09:45'', [(''a'', ''w'', ''x'', ''t''), (''b'', ''w'', ''x'', ''t'')]),
         (''13:45'', [(''c'', ''w'', ''x'', ''t''), (''d'', ''w'', ''x'', ''t'')])] 9 47
       = Inr (''b'', ''w'', ''x'', ''t'')
   \<and> map_of [(''09:45'', [(''a'', ''w'', ''x'', ''t''), (''b'', ''w'', ''x'', ''t'')]),
             (''13:45'', [(''c'', ''w'', ''x'', ''t''), (''d'', ''w'', ''x'', ''t'')])] ''13:45''
       = Some [(''c'', ''w'', ''x'', ''t''), (''d'', ''w'', ''x'', ''t'')]
   \<and> pick_for_time
        [(''09:45'', [(''a'', ''w'', ''x'', ''t''), (''b'', ''w'', ''x'', ''t'')]),
         (''13:45'', [(''c'', ''w'', ''x'', ''t''), (''d'', ''w'', ''x'', ''t'')])] 13 45
       = Inr (''d'', ''w'', ''x'', ''t'')"
proof -
  let ?q = "[(''09:45'', [(''a'', ''w'', ''x'', ''t''), (''b'', ''w'', ''x'', ''t'')]),
             (''13:45'', [(''c'', ''w'', ''x'', ''t''), (''d'', ''w'', ''x'', ''t'')])]"
  have wf: "\<forall>(k, l) \<in> set ?q. l \<noteq> []" by simp
  have ne: "?q \<noteq> []" by simp
  have h9: "(0::int) \<le> 9" "(9::int) \<le> 23" and m47: "(0::int) \<le> 47" "(47::int) \<le> 59"
    and h13: "(0::int) \<le> 13" "(13::int) \<le> 23" and m45: "(0::int) \<le> 45" "(45::int) \<le> 59"
    by simp_all
  have k947: "''09:47'' =
      [''0123456789'' ! (nat 9 div 10), ''0123456789'' ! (nat 9 mod 10), CHR '':'',
       ''0123456789'' ! (nat 47 div 10), ''0123456789'' ! (nat 47 mod 10)]"
    by code_simp
  have b947: "''09:45'' =
      [''0123456789'' ! (nat 9 div 10), ''0123456789'' ! (nat 9 mod 10), CHR '':'',
       ''0123456789'' ! ((nat 47 div 5 * 5) div 10), ''0123456789'' ! ((nat 47 div 5 * 5) mod 10)]"
    by code_simp
  have k1345: "''13:45'' =
      [''0123456789'' ! (nat 13 div 10), ''0123456789'' ! (nat 13 mod 10), CHR '':'',
       ''0123456789'' ! (nat 45 div 10), ''0123456789'' ! (nat 45 mod 10)]"
    by code_simp
  have b1345: "''13:45'' =
      [''0123456789'' ! (nat 13 div 10), ''0123456789'' ! (nat 13 mod 10), CHR '':'',
       ''0123456789'' ! ((nat 45 div 5 * 5) div 10), ''0123456789'' ! ((nat 45 div 5 * 5) mod 10)]"
    by code_simp
  have none: "map_of ?q ''09:47'' = None"
    by code_simp
  have some945: "map_of ?q ''09:45'' = Some [(''a'', ''w'', ''x'', ''t''), (''b'', ''w'', ''x'', ''t'')]"
    by code_simp
  have some1345: "map_of ?q ''13:45'' = Some [(''c'', ''w'', ''x'', ''t''), (''d'', ''w'', ''x'', ''t'')]"
    by code_simp
  have r9: "[(''a'', ''w'', ''x'', ''t''), (''b'', ''w'', ''x'', ''t'')]
              ! (nat 9 mod length [(''a'', ''w'', ''x'', ''t''), (''b'', ''w'', ''x'', ''t'')])
            = (''b'', ''w'', ''x'', ''t'')"
    by code_simp
  have r13: "[(''c'', ''w'', ''x'', ''t''), (''d'', ''w'', ''x'', ''t'')]
              ! (nat 13 mod length [(''c'', ''w'', ''x'', ''t''), (''d'', ''w'', ''x'', ''t'')])
            = (''d'', ''w'', ''x'', ''t'')"
    by code_simp
  note t1 = pick_for_time_exact_bucket_last_resort [OF h9 m47 ne wf k947 b947]
  note t2 = pick_for_time_exact_bucket_last_resort [OF h13 m45 ne wf k1345 b1345]
  from t1 none some945 have
    "pick_for_time ?q 9 47 =
       Inr ([(''a'', ''w'', ''x'', ''t''), (''b'', ''w'', ''x'', ''t'')]
              ! (nat 9 mod length [(''a'', ''w'', ''x'', ''t''), (''b'', ''w'', ''x'', ''t'')]))"
    by blast
  then have bucket: "pick_for_time ?q 9 47 = Inr (''b'', ''w'', ''x'', ''t'')"
    by (simp only: r9)
  from t2 some1345 have
    "pick_for_time ?q 13 45 =
       Inr ([(''c'', ''w'', ''x'', ''t''), (''d'', ''w'', ''x'', ''t'')]
              ! (nat 13 mod length [(''c'', ''w'', ''x'', ''t''), (''d'', ''w'', ''x'', ''t'')]))"
    by blast
  then have exact: "pick_for_time ?q 13 45 = Inr (''d'', ''w'', ''x'', ''t'')"
    by (simp only: r13)
  from h9 m47 ne none some945 some1345 bucket exact show ?thesis
    by (intro conjI)
qed

section \<open>Layout: the claims\<close>

lemma place_line_y: "\<forall>lab \<in> set (snd (place_line meas space_w y x line)). lab_y lab = y"
  by (induction line arbitrary: x) (auto simp: Let_def split: if_splits)

lemma flush_line_bound:
  assumes "flush_line meas (Some y_max) space_w line_h v = (ok, v')"
    and "\<forall>lab \<in> set (lv_qgroup v). lab_y lab + line_h \<le> y_max"
  shows "\<forall>lab \<in> set (lv_qgroup v'). lab_y lab + line_h \<le> y_max"
proof (cases "lv_y v + line_h > y_max")
  case True
  with assms show ?thesis by (auto simp: flush_line_def Let_def)
next
  case False
  with assms(1) have
    "lv_qgroup v' = lv_qgroup v @ snd (place_line meas space_w (lv_y v) MARGIN (lv_line v))"
    by (auto simp: flush_line_def Let_def)
  with assms(2) False place_line_y [of meas space_w "lv_y v" MARGIN "lv_line v"]
  show ?thesis by auto
qed

lemma flush_line_stops:
  assumes "lv_y v + line_h > y_max"
  shows "flush_line meas (Some y_max) space_w line_h v = (False, v\<lparr>lv_x := MARGIN, lv_line := []\<rparr>)"
  using assms by (simp add: flush_line_def Let_def)

lemma layout_loop_bound:
  assumes "\<forall>lab \<in> set (lv_qgroup v). lab_y lab + line_h \<le> y_max"
  shows "\<forall>lab \<in> set (lv_qgroup (layout_loop env (Some y_max) space_w line_h tokens v)).
           lab_y lab + line_h \<le> y_max"
  using assms
proof (induction tokens arbitrary: v)
  case Nil
  obtain ok v' where f: "flush_line (measure env) (Some y_max) space_w line_h v = (ok, v')"
    by (cases "flush_line (measure env) (Some y_max) space_w line_h v")
  from flush_line_bound [OF f Nil.prems] f Nil.prems show ?case by simp
next
  case (Cons tok tokens)
  obtain wt bold where tok: "tok = (wt, bold)" by (cases tok)
  obtain ok v' where f: "flush_line (measure env) (Some y_max) space_w line_h v = (ok, v')"
    by (cases "flush_line (measure env) (Some y_max) space_w line_h v")
  have b': "\<forall>lab \<in> set (lv_qgroup v'). lab_y lab + line_h \<le> y_max"
    by (rule flush_line_bound [OF f Cons.prems])
  let ?w = "fst (measure env wt)"
  show ?case
  proof (cases "lv_line v = []")
    case True
    have "\<forall>lab \<in> set (lv_qgroup (v\<lparr>lv_line := lv_line v @ [(wt, bold)], lv_line_w := ?w\<rparr>)).
            lab_y lab + line_h \<le> y_max"
      using Cons.prems by simp
    from Cons.IH [OF this] True tok show ?thesis by (simp add: Let_def)
  next
    case ne: False
    let ?next_w = "lv_line_w v + space_w + ?w"
    show ?thesis
    proof (cases "MARGIN + ?next_w + MARGIN > display_width env")
      case over: True
      show ?thesis
      proof (cases ok)
        case True
        have "\<forall>lab \<in> set (lv_qgroup (v'\<lparr>lv_y := lv_y v' + (line_h + 2), lv_line := [(wt, bold)], lv_line_w := ?w\<rparr>)).
                lab_y lab + line_h \<le> y_max"
          using b' by simp
        from Cons.IH [OF this] ne over True f tok
        show ?thesis by (simp add: Let_def)
      next
        case False
        with ne over f tok b' show ?thesis by (simp add: Let_def)
      qed
    next
      case False
      have "\<forall>lab \<in> set (lv_qgroup (v\<lparr>lv_line := lv_line v @ [(wt, bold)], lv_line_w := ?next_w\<rparr>)).
              lab_y lab + line_h \<le> y_max"
        using Cons.prems by simp
      from Cons.IH [OF this] ne False tok show ?thesis by (simp add: Let_def)
    qed
  qed
qed

text \<open>
  Claim C4. With a bound \<open>y_max\<close>, every label the layout leaves in the group has
  \<open>y + line_h \<le> y_max\<close>, where \<open>line_h\<close> is the height measured for a space. When a
  line is due (the next token does not fit the width, or the tokens have ended with a
  line pending) and \<open>y + line_h > y_max\<close>, the pending line is dropped, the group stays
  as it is, the tokens that remain are not looked at, and the function returns.
\<close>

theorem layout_never_below_y_max:
  "(\<forall>lab \<in> set (layout_quote_into_group env qgroup quote_text y_start (Some y_max)).
       lab_y lab + snd (measure env '' '') \<le> y_max)
   \<and> (lv_line v \<noteq> []
        \<and> MARGIN + (lv_line_w v + space_w + fst (measure env txt)) + MARGIN > display_width env
        \<and> lv_y v + line_h > y_max
      \<longrightarrow> layout_loop env (Some y_max) space_w line_h ((txt, bold) # tokens) v
            = v\<lparr>lv_x := MARGIN, lv_line := []\<rparr>)
   \<and> (lv_line v \<noteq> [] \<and> lv_y v + line_h > y_max
      \<longrightarrow> layout_loop env (Some y_max) space_w line_h [] v = v\<lparr>lv_x := MARGIN, lv_line := []\<rparr>)"
proof (intro conjI impI)
  show "\<forall>lab \<in> set (layout_quote_into_group env qgroup quote_text y_start (Some y_max)).
          lab_y lab + snd (measure env '' '') \<le> y_max"
    unfolding layout_quote_into_group_def Let_def
    by (rule layout_loop_bound) simp
next
  assume a: "lv_line v \<noteq> []
        \<and> MARGIN + (lv_line_w v + space_w + fst (measure env txt)) + MARGIN > display_width env
        \<and> lv_y v + line_h > y_max"
  then have "lv_y v + line_h > y_max" by simp
  from flush_line_stops [OF this] a
  show "layout_loop env (Some y_max) space_w line_h ((txt, bold) # tokens) v
          = v\<lparr>lv_x := MARGIN, lv_line := []\<rparr>"
    by (simp add: Let_def)
next
  assume a: "lv_line v \<noteq> [] \<and> lv_y v + line_h > y_max"
  then have "lv_y v + line_h > y_max" by simp
  from flush_line_stops [OF this] a
  show "layout_loop env (Some y_max) space_w line_h [] v = v\<lparr>lv_x := MARGIN, lv_line := []\<rparr>"
    by simp
qed

theorem layout_never_below_y_max_witness:
  "layout_quote_into_group
      \<lparr>measure = (\<lambda>s. (6 * int (length s), 12)), display_width = 100, display_height = 128,
       quotes_by_hhmm = []\<rparr>
      [] ''aaaa ^bbbb^ cccc dddd eeee ffff'' 10 (Some 30)
     = [\<lparr>lab_text = ''aaaa'', lab_x = 10, lab_y = 10\<rparr>,
        \<lparr>lab_text = ''bbbb'', lab_x = 40, lab_y = 10\<rparr>,
        \<lparr>lab_text = ''bbbb'', lab_x = 41, lab_y = 10\<rparr>]
   \<and> (10::int) + 12 \<le> 30
   \<and> MARGIN + ((54::int) + 6 + 24) + MARGIN > 100
   \<and> (24::int) + 12 > 30
   \<and> layout_loop
        \<lparr>measure = (\<lambda>s. (6 * int (length s), 12)), display_width = 100, display_height = 128,
         quotes_by_hhmm = []\<rparr>
        (Some 30) 6 12 [(''eeee'', False), (''ffff'', False)]
        \<lparr>lv_x = 70, lv_y = 24, lv_line = [(''cccc'', False), (''dddd'', False)], lv_line_w = 54,
         lv_qgroup = [\<lparr>lab_text = ''aaaa'', lab_x = 10, lab_y = 10\<rparr>]\<rparr>
     = \<lparr>lv_x = 10, lv_y = 24, lv_line = [], lv_line_w = 54,
        lv_qgroup = [\<lparr>lab_text = ''aaaa'', lab_x = 10, lab_y = 10\<rparr>]\<rparr>
   \<and> layout_loop
        \<lparr>measure = (\<lambda>s. (6 * int (length s), 12)), display_width = 100, display_height = 128,
         quotes_by_hhmm = []\<rparr>
        (Some 30) 6 12 []
        \<lparr>lv_x = 70, lv_y = 24, lv_line = [(''cccc'', False), (''dddd'', False)], lv_line_w = 54,
         lv_qgroup = [\<lparr>lab_text = ''aaaa'', lab_x = 10, lab_y = 10\<rparr>]\<rparr>
     = \<lparr>lv_x = 10, lv_y = 24, lv_line = [], lv_line_w = 54,
        lv_qgroup = [\<lparr>lab_text = ''aaaa'', lab_x = 10, lab_y = 10\<rparr>]\<rparr>"
proof -
  let ?E = "\<lparr>measure = (\<lambda>s. (6 * int (length s), 12)), display_width = 100, display_height = 128,
             quotes_by_hhmm = []\<rparr>"
  let ?V = "\<lparr>lv_x = 70, lv_y = 24, lv_line = [(''cccc'', False), (''dddd'', False)], lv_line_w = 54,
             lv_qgroup = [\<lparr>lab_text = ''aaaa'', lab_x = 10, lab_y = 10\<rparr>]\<rparr>"
  have h: "layout_quote_into_group ?E [] ''aaaa ^bbbb^ cccc dddd eeee ffff'' 10 (Some 30)
     = [\<lparr>lab_text = ''aaaa'', lab_x = 10, lab_y = 10\<rparr>,
        \<lparr>lab_text = ''bbbb'', lab_x = 40, lab_y = 10\<rparr>,
        \<lparr>lab_text = ''bbbb'', lab_x = 41, lab_y = 10\<rparr>]"
    by code_simp
  from layout_never_below_y_max [of ?E "[]" "''aaaa ^bbbb^ cccc dddd eeee ffff''" 10 30 ?V 6
      "''eeee''" 12 False "[(''ffff'', False)]"] h
  show ?thesis by (simp add: MARGIN_def)
qed

section \<open>Safe refresh, render and commit: the claims\<close>

lemma safe_refresh_frame:
  assumes "safe_refresh hw st = Inr st'"
  shows "rtc_datetime st' = rtc_datetime st \<and> set_mode st' = set_mode st
         \<and> last_bucket st' = last_bucket st"
  using assms
  by (auto simp: safe_refresh_def Let_def split: if_splits option.splits)


lemma safe_refresh_returns:
  assumes "refresh1 hw = None \<or> refresh1 hw = Some RuntimeError"
    and "refresh2 hw = None \<or> refresh2 hw = Some RuntimeError"
  shows "\<exists>st'. safe_refresh hw st = Inr st'"
  using assms by (auto simp: safe_refresh_def Let_def)

text \<open>
  Claim C8. When the display's refresh raises nothing but the busy \<open>RuntimeError\<close>, the
  safe refresh always returns. When the elapsed time, the float difference of the
  monotonic reading and the time of the last refresh, is below the minimum gap it does
  nothing at all. Otherwise it refreshes once; if that raises it sleeps half a second and
  refreshes once more; and if the retry raises too it returns with the time of the last
  refresh as it was. The difference is the rounded one: of the floats 0.6 and 0.1 it is
  0.5 exactly, so that refresh is not skipped; of 0.3 and 0.1 it is the float below 0.2.
\<close>

theorem safe_refresh_one_retry_then_gives_up:
  "((refresh1 hw = None \<or> refresh1 hw = Some RuntimeError)
      \<and> (refresh2 hw = None \<or> refresh2 hw = Some RuntimeError)
      \<longrightarrow> (\<exists>st'. safe_refresh hw st = Inr st'))
    \<and> (float_sub (mono1 hw) (last_refresh st) < MIN_REFRESH_GAP \<longrightarrow> safe_refresh hw st = Inr st)
    \<and> (\<not> float_sub (mono1 hw) (last_refresh st) < MIN_REFRESH_GAP \<and> refresh1 hw = None \<longrightarrow>
         safe_refresh hw st
           = Inr (st\<lparr>last_refresh := mono1 hw, hw_calls := hw_calls st @ [Refresh]\<rparr>))
    \<and> (\<not> float_sub (mono1 hw) (last_refresh st) < MIN_REFRESH_GAP
         \<and> refresh1 hw = Some RuntimeError \<and> refresh2 hw = None \<longrightarrow>
         safe_refresh hw st
           = Inr (st\<lparr>last_refresh := mono2 hw,
                    hw_calls := hw_calls st @ [Refresh, Sleep (1 / 2), Refresh]\<rparr>))
    \<and> (\<not> float_sub (mono1 hw) (last_refresh st) < MIN_REFRESH_GAP
         \<and> refresh1 hw = Some RuntimeError \<and> refresh2 hw = Some RuntimeError \<longrightarrow>
         safe_refresh hw st
           = Inr (st\<lparr>hw_calls := hw_calls st @ [Refresh, Sleep (1 / 2), Refresh]\<rparr>))
    \<and> float_sub (5404319552844595 / 9007199254740992) (3602879701896397 / 36028797018963968)
        = 1 / 2
    \<and> float_sub (5404319552844595 / 18014398509481984) (3602879701896397 / 36028797018963968)
        = 7205759403792793 / 36028797018963968"
proof (intro conjI impI)
  assume "(refresh1 hw = None \<or> refresh1 hw = Some RuntimeError)
      \<and> (refresh2 hw = None \<or> refresh2 hw = Some RuntimeError)"
  then show "\<exists>st'. safe_refresh hw st = Inr st'"
    using safe_refresh_returns [of hw st] by blast
next
  show "float_sub (5404319552844595 / 9007199254740992) (3602879701896397 / 36028797018963968)
        = 1 / 2"
    by code_simp
  show "float_sub (5404319552844595 / 18014398509481984) (3602879701896397 / 36028797018963968)
        = 7205759403792793 / 36028797018963968"
    by code_simp
qed (simp_all add: safe_refresh_def Let_def)

theorem safe_refresh_one_retry_then_gives_up_witness:
  "refresh1
      \<lparr>mono1 = 5404319552844595 / 9007199254740992, refresh1 = Some RuntimeError,
       mono2 = 5 / 4, refresh2 = Some RuntimeError\<rparr>
     = Some RuntimeError
   \<and> refresh2
      \<lparr>mono1 = 5404319552844595 / 9007199254740992, refresh1 = Some RuntimeError,
       mono2 = 5 / 4, refresh2 = Some RuntimeError\<rparr>
     = Some RuntimeError
   \<and> float_sub (5404319552844595 / 9007199254740992) (3602879701896397 / 36028797018963968) = 1 / 2
   \<and> \<not> float_sub (5404319552844595 / 9007199254740992) (3602879701896397 / 36028797018963968)
         < MIN_REFRESH_GAP
   \<and> safe_refresh
        \<lparr>mono1 = 5404319552844595 / 9007199254740992, refresh1 = Some RuntimeError,
         mono2 = 5 / 4, refresh2 = Some RuntimeError\<rparr>
        ((initial_state
          \<lparr>tm_year = 2025, tm_mon = 1, tm_mday = 1, tm_hour = 12, tm_min = 0, tm_sec = 0,
           tm_wday = 2, tm_yday = 1, tm_isdst = -1\<rparr>)
          \<lparr>last_refresh := 3602879701896397 / 36028797018963968\<rparr>)
     = Inr ((initial_state
          \<lparr>tm_year = 2025, tm_mon = 1, tm_mday = 1, tm_hour = 12, tm_min = 0, tm_sec = 0,
           tm_wday = 2, tm_yday = 1, tm_isdst = -1\<rparr>)
          \<lparr>last_refresh := 3602879701896397 / 36028797018963968,
           hw_calls := [Refresh, Sleep (1 / 2), Refresh]\<rparr>)
   \<and> float_sub (5404319552844595 / 18014398509481984) (3602879701896397 / 36028797018963968)
         < MIN_REFRESH_GAP
   \<and> safe_refresh
        \<lparr>mono1 = 5404319552844595 / 18014398509481984, refresh1 = None,
         mono2 = 5 / 4, refresh2 = None\<rparr>
        ((initial_state
          \<lparr>tm_year = 2025, tm_mon = 1, tm_mday = 1, tm_hour = 12, tm_min = 0, tm_sec = 0,
           tm_wday = 2, tm_yday = 1, tm_isdst = -1\<rparr>)
          \<lparr>last_refresh := 3602879701896397 / 36028797018963968\<rparr>)
     = Inr ((initial_state
          \<lparr>tm_year = 2025, tm_mon = 1, tm_mday = 1, tm_hour = 12, tm_min = 0, tm_sec = 0,
           tm_wday = 2, tm_yday = 1, tm_isdst = -1\<rparr>)
          \<lparr>last_refresh := 3602879701896397 / 36028797018963968\<rparr>)"
proof -
  let ?busy = "\<lparr>mono1 = 5404319552844595 / 9007199254740992, refresh1 = Some RuntimeError,
                mono2 = 5 / 4, refresh2 = Some RuntimeError\<rparr>"
  let ?soon = "\<lparr>mono1 = 5404319552844595 / 18014398509481984, refresh1 = None,
                mono2 = 5 / 4, refresh2 = None\<rparr>"
  let ?st = "(initial_state
          \<lparr>tm_year = 2025, tm_mon = 1, tm_mday = 1, tm_hour = 12, tm_min = 0, tm_sec = 0,
           tm_wday = 2, tm_yday = 1, tm_isdst = -1\<rparr>)
          \<lparr>last_refresh := 3602879701896397 / 36028797018963968\<rparr>"
  have half: "float_sub (5404319552844595 / 9007199254740992) (3602879701896397 / 36028797018963968)
                = 1 / 2"
    by code_simp
  have late: "\<not> float_sub (5404319552844595 / 9007199254740992)
                     (3602879701896397 / 36028797018963968) < MIN_REFRESH_GAP"
    by code_simp
  have soon: "float_sub (5404319552844595 / 18014398509481984)
                (3602879701896397 / 36028797018963968) < MIN_REFRESH_GAP"
    by code_simp
  have lr: "last_refresh ?st = 3602879701896397 / 36028797018963968"
    by (simp add: initial_state_def)
  have busy: "safe_refresh ?busy ?st = Inr (?st\<lparr>hw_calls := hw_calls ?st @ [Refresh, Sleep (1 / 2), Refresh]\<rparr>)"
    using safe_refresh_one_retry_then_gives_up [of ?busy ?st] late
    by (simp only: lr hw_answers.simps, simp?)
  have skip: "safe_refresh ?soon ?st = Inr ?st"
    using safe_refresh_one_retry_then_gives_up [of ?soon ?st] soon
    by (simp only: lr hw_answers.simps, simp?)
  from busy skip half late soon show ?thesis
    by (simp add: initial_state_def)
qed

lemma render_frame:
  assumes "render force live_preview_time env hw st = Inr st'"
  shows "rtc_datetime st' = rtc_datetime st \<and> set_mode st' = set_mode st"
  using assms
  by (auto simp: render_def Let_def split: if_splits sum.splits prod.splits
      dest!: safe_refresh_frame)


lemma render_records_bucket:
  assumes "render force None env hw st = Inr st'"
  shows "last_bucket st' = Some (tm_min (get_now st) div UPDATE_MINUTES * UPDATE_MINUTES)"
  using assms
  by (auto simp: render_def Let_def split: if_splits sum.splits prod.splits)

lemma render_returns:
  assumes "quotes_by_hhmm env \<noteq> []" and "\<forall>(k, l) \<in> set (quotes_by_hhmm env). l \<noteq> []"
    and "refresh1 hw = None \<or> refresh1 hw = Some RuntimeError"
    and "refresh2 hw = None \<or> refresh2 hw = Some RuntimeError"
  shows "\<exists>st'. render force live_preview_time env hw st = Inr st'"
proof -
  let ?hm = "case live_preview_time of Some t \<Rightarrow> t | None \<Rightarrow> (tm_hour (get_now st), tm_min (get_now st))"
  from pick_some_list [OF assms(1,2), of "fst ?hm" "snd ?hm"]
  obtain q where q: "pick_for_time (quotes_by_hhmm env) (fst ?hm) (snd ?hm) = Inr q"
    by blast
  obtain quote_text work author tag where qq: "q = (quote_text, work, author, tag)"
    by (cases q) auto
  show ?thesis
    unfolding render_def Let_def q qq
    using safe_refresh_returns [OF assms(3,4)]
    by (auto split: sum.splits) (metis Inl_Inr_False)+
qed

text \<open>
  Claim C7. Once a bucket is recorded, a render that is not forced, has no live preview
  and finds the clock's minute in the recorded bucket returns at once with every global,
  label and hardware call as they were: nothing is selected, laid out or refreshed. And a
  render without live preview that returns has recorded the bucket of the clock's minute.
\<close>

theorem render_skips_recorded_bucket:
  "(last_bucket st = Some b \<and> tm_min (get_now st) div UPDATE_MINUTES * UPDATE_MINUTES = b
      \<longrightarrow> render False None env hw st = Inr st)
   \<and> (render force None env hw st = Inr st'
      \<longrightarrow> last_bucket st' = Some (tm_min (get_now st) div UPDATE_MINUTES * UPDATE_MINUTES)
          \<and> get_now st' = get_now st)"
proof (intro conjI impI)
  assume "last_bucket st = Some b \<and> tm_min (get_now st) div UPDATE_MINUTES * UPDATE_MINUTES = b"
  then show "render False None env hw st = Inr st"
    by (auto simp: render_def Let_def)
next
  assume "render force None env hw st = Inr st'"
  then show "last_bucket st' = Some (tm_min (get_now st) div UPDATE_MINUTES * UPDATE_MINUTES)"
    by (rule render_records_bucket)
next
  assume "render force None env hw st = Inr st'"
  from render_frame [OF this] show "get_now st' = get_now st"
    by (simp add: get_now_def)
qed

theorem render_skips_recorded_bucket_witness:
  "render True None
      \<lparr>measure = (\<lambda>s. (6 * int (length s), 12)), display_width = 296, display_height = 128,
       quotes_by_hhmm = QUOTES_BY_HHMM []\<rparr>
      \<lparr>mono1 = 10, refresh1 = None, mono2 = 21 / 2, refresh2 = None\<rparr>
      (initial_state
        \<lparr>tm_year = 2025, tm_mon = 3, tm_mday = 9, tm_hour = 12, tm_min = 47, tm_sec = 30,
         tm_wday = 6, tm_yday = 68, tm_isdst = -1\<rparr>)
     = Inr \<lparr>rtc_datetime =
              \<lparr>tm_year = 2025, tm_mon = 3, tm_mday = 9, tm_hour = 12, tm_min = 47, tm_sec = 30,
               tm_wday = 6, tm_yday = 68, tm_isdst = -1\<rparr>,
            last_refresh = 10, last_bucket = Some 45,
            quote_group =
              [\<lparr>lab_text = ''Midnight'', lab_x = 10, lab_y = 10\<rparr>,
               \<lparr>lab_text = ''Midnight'', lab_x = 11, lab_y = 10\<rparr>,
               \<lparr>lab_text = ''.'', lab_x = 64, lab_y = 10\<rparr>],
            meta_label_text = ''Fallback - System'', meta_label_pos = (10, 118),
            time_label_text = ''Time: 12:47'', time_label_pos = (10, 102),
            set_mode = SET_NONE, edit_h = 0, edit_m = 0, hw_calls = [Refresh]\<rparr>
   \<and> (47::int) div UPDATE_MINUTES * UPDATE_MINUTES = 45
   \<and> render False None
      \<lparr>measure = (\<lambda>s. (6 * int (length s), 12)), display_width = 296, display_height = 128,
       quotes_by_hhmm = QUOTES_BY_HHMM []\<rparr>
      \<lparr>mono1 = 70, refresh1 = None, mono2 = 141 / 2, refresh2 = None\<rparr>
      \<lparr>rtc_datetime =
              \<lparr>tm_year = 2025, tm_mon = 3, tm_mday = 9, tm_hour = 12, tm_min = 47, tm_sec = 30,
               tm_wday = 6, tm_yday = 68, tm_isdst = -1\<rparr>,
            last_refresh = 10, last_bucket = Some 45,
            quote_group =
              [\<lparr>lab_text = ''Midnight'', lab_x = 10, lab_y = 10\<rparr>,
               \<lparr>lab_text = ''Midnight'', lab_x = 11, lab_y = 10\<rparr>,
               \<lparr>lab_text = ''.'', lab_x = 64, lab_y = 10\<rparr>],
            meta_label_text = ''Fallback - System'', meta_label_pos = (10, 118),
            time_label_text = ''Time: 12:47'', time_label_pos = (10, 102),
            set_mode = SET_NONE, edit_h = 0, edit_m = 0, hw_calls = [Refresh]\<rparr>
     = Inr \<lparr>rtc_datetime =
              \<lparr>tm_year = 2025, tm_mon = 3, tm_mday = 9, tm_hour = 12, tm_min = 47, tm_sec = 30,
               tm_wday = 6, tm_yday = 68, tm_isdst = -1\<rparr>,
            last_refresh = 10, last_bucket = Some 45,
            quote_group =
              [\<lparr>lab_text = ''Midnight'', lab_x = 10, lab_y = 10\<rparr>,
               \<lparr>lab_text = ''Midnight'', lab_x = 11, lab_y = 10\<rparr>,
               \<lparr>lab_text = ''.'', lab_x = 64, lab_y = 10\<rparr>],
            meta_label_text = ''Fallback - System'', meta_label_pos = (10, 118),
            time_label_text = ''Time: 12:47'', time_label_pos = (10, 102),
            set_mode = SET_NONE, edit_h = 0, edit_m = 0, hw_calls = [Refresh]\<rparr>"
proof -
  let ?E = "\<lparr>measure = (\<lambda>s. (6 * int (length s), 12)), display_width = 296, display_height = 128,
             quotes_by_hhmm = QUOTES_BY_HHMM []\<rparr>"
  let ?T = "\<lparr>tm_year = 2025, tm_mon = 3, tm_mday = 9, tm_hour = 12, tm_min = 47, tm_sec = 30,
             tm_wday = 6, tm_yday = 68, tm_isdst = -1\<rparr>"
  let ?S1 = "\<lparr>rtc_datetime = ?T, last_refresh = 10, last_bucket = Some 45,
            quote_group =
              [\<lparr>lab_text = ''Midnight'', lab_x = 10, lab_y = 10\<rparr>,
               \<lparr>lab_text = ''Midnight'', lab_x = 11, lab_y = 10\<rparr>,
               \<lparr>lab_text = ''.'', lab_x = 64, lab_y = 10\<rparr>],
            meta_label_text = ''Fallback - System'', meta_label_pos = (10, 118),
            time_label_text = ''Time: 12:47'', time_label_pos = (10, 102),
            set_mode = SET_NONE, edit_h = 0, edit_m = 0, hw_calls = [Refresh]\<rparr>"
  let ?HW2 = "\<lparr>mono1 = 70, refresh1 = None, mono2 = 141 / 2, refresh2 = None\<rparr>"
  have first: "render True None ?E \<lparr>mono1 = 10, refresh1 = None, mono2 = 21 / 2, refresh2 = None\<rparr>
                 (initial_state ?T) = Inr ?S1"
    by code_simp
  have bucket: "(47::int) div UPDATE_MINUTES * UPDATE_MINUTES = 45"
    by (simp add: UPDATE_MINUTES_def)
  from render_skips_recorded_bucket [of ?S1 45 ?E ?HW2 False ?S1] first bucket
  show ?thesis by (simp add: get_now_def)
qed



end
